theory Spec2Isabelle
  imports Complex_Main "HOL-Library.Char_ord" "HOL-Library.List_Lexorder"
    "HOL-Library.Multiset" "HOL-Library.Sublist"
begin

section \<open>Data model\<close>

text \<open>
  The types of \<open>@types\<close> as the services use them. A JavaScript string is a list of
  code units; \<open>char\<close> covers the code units below 256. Numbers that the code only
  compares (scores, thresholds) are reals; counts, versions and timestamps are integers.
  An optional property is an \<open>option\<close>.
\<close>

record Model =
  model_id :: string
  model_name :: string
  model_provider :: string
  model_group :: string
  model_description :: "string option"

record KnowledgeBaseSummary =
  sid :: string
  name :: string
  description :: "string option"
  dimensions :: "int option"
  documentCount :: "int option"
  chunkSize :: "int option"
  chunkOverlap :: "int option"
  threshold :: "real option"
  created_at :: int
  updated_at :: int
  version :: int
  preprocessProvider :: "string option"
  model :: Model
  rerankModel :: "Model option"

record ApiClient =
  client_model :: string
  client_provider :: string
  client_apiKey :: string
  client_baseURL :: string

record KnowledgeBaseParams =
  params_id :: string
  embedApiClient :: ApiClient
  rerankApiClient :: "ApiClient option"

record KnowledgeBaseSyncPayload =
  metadata :: KnowledgeBaseSummary
  params :: KnowledgeBaseParams

section \<open>The store replica: \<open>KnowledgeStoreService\<close>\<close>

text \<open>
  A JavaScript \<open>Map\<close> keeps its keys in insertion order; \<open>set\<close> on a key that is
  already present replaces the value where it stands.
\<close>

type_synonym ('k, 'v) js_map = "('k \<times> 'v) list"

fun map_set :: "'k \<Rightarrow> 'v \<Rightarrow> ('k, 'v) js_map \<Rightarrow> ('k, 'v) js_map" where
  "map_set k v [] = [(k, v)]"
| "map_set k v ((k', v') # m) =
     (if k' = k then (k, v) # m else (k', v') # map_set k v m)"

definition map_get :: "('k, 'v) js_map \<Rightarrow> 'k \<Rightarrow> 'v option" where
  "map_get m k = map_of m k"

definition map_values :: "('k, 'v) js_map \<Rightarrow> 'v list" where
  "map_values m = map snd m"

record KnowledgeStoreService =
  bases :: "(string, KnowledgeBaseSyncPayload) js_map"
  isActive :: bool
  lastSyncedAt :: "int option"

definition initial_store :: KnowledgeStoreService where
  "initial_store = \<lparr>bases = [], isActive = False, lastSyncedAt = None\<rparr>"

datatype IpcChannel = KnowledgeStore_RequestSync | KnowledgeStore_StopSync

text \<open>
  \<open>requestSyncFromRenderer\<close> and \<open>sendStopSignal\<close> send on the main window when there is
  one; the first argument says whether \<open>getMainWindow()\<close> returns a window. Each operation
  returns the messages it sent and the new state.
\<close>

definition requestSyncFromRenderer :: "bool \<Rightarrow> IpcChannel list" where
  "requestSyncFromRenderer mainWindow = (if \<not> mainWindow then [] else [KnowledgeStore_RequestSync])"

definition sendStopSignal :: "bool \<Rightarrow> IpcChannel list" where
  "sendStopSignal mainWindow = (if \<not> mainWindow then [] else [KnowledgeStore_StopSync])"

definition startSync :: "bool \<Rightarrow> KnowledgeStoreService \<Rightarrow> IpcChannel list \<times> KnowledgeStoreService" where
  "startSync mainWindow s =
     (if isActive s then (requestSyncFromRenderer mainWindow, s)
      else (requestSyncFromRenderer mainWindow, s\<lparr>isActive := True\<rparr>))"

definition stopSync :: "bool \<Rightarrow> KnowledgeStoreService \<Rightarrow> IpcChannel list \<times> KnowledgeStoreService" where
  "stopSync mainWindow s =
     (if \<not> isActive s then ([], s)
      else (sendStopSignal mainWindow, s\<lparr>isActive := False, bases := [], lastSyncedAt := None\<rparr>))"

record SyncResponse =
  accepted :: bool
  syncedAt :: "int option"

text \<open>The second argument is the value of \<open>Date.now()\<close> at the call.\<close>

definition handleSyncPayload ::
  "KnowledgeBaseSyncPayload list \<Rightarrow> int \<Rightarrow> KnowledgeStoreService \<Rightarrow> SyncResponse \<times> KnowledgeStoreService" where
  "handleSyncPayload payload now s =
     (if \<not> isActive s then (\<lparr>accepted = False, syncedAt = None\<rparr>, s)
      else
        let bs = fold (\<lambda>entry m. map_set (sid (metadata entry)) entry m) payload [];
            s' = s\<lparr>bases := bs, lastSyncedAt := Some now\<rparr>
        in (\<lparr>accepted = True, syncedAt = lastSyncedAt s'\<rparr>, s'))"

definition getBases :: "KnowledgeStoreService \<Rightarrow> KnowledgeBaseSummary list" where
  "getBases s = map (\<lambda>entry. metadata entry) (map_values (bases s))"

definition getBase :: "KnowledgeStoreService \<Rightarrow> string \<Rightarrow> KnowledgeBaseSyncPayload option" where
  "getBase s i = map_get (bases s) i"

definition getBaseParams :: "KnowledgeStoreService \<Rightarrow> string \<Rightarrow> KnowledgeBaseParams option" where
  "getBaseParams s i = map_option params (map_get (bases s) i)"

definition hasBases :: "KnowledgeStoreService \<Rightarrow> bool" where
  "hasBases s = (length (bases s) > 0)"

definition isSyncActive :: "KnowledgeStoreService \<Rightarrow> bool" where
  "isSyncActive s = isActive s"

definition getLastSyncedAt :: "KnowledgeStoreService \<Rightarrow> int option" where
  "getLastSyncedAt s = lastSyncedAt s"

text \<open>The states the singleton can be in: it starts empty and changes only through its
  three operations.\<close>

inductive reachable :: "KnowledgeStoreService \<Rightarrow> bool" where
  reach_init: "reachable initial_store"
| reach_start: "reachable s \<Longrightarrow> reachable (snd (startSync mainWindow s))"
| reach_stop: "reachable s \<Longrightarrow> reachable (snd (stopSync mainWindow s))"
| reach_sync: "reachable s \<Longrightarrow> reachable (snd (handleSyncPayload payload now s))"

text \<open>The invariant: an inactive session has no bases and no time of last sync.\<close>

definition store_inv :: "KnowledgeStoreService \<Rightarrow> bool" where
  "store_inv s = (\<not> isActive s \<longrightarrow> bases s = [] \<and> lastSyncedAt s = None)"

text \<open>The entry of a payload that a lookup by identifier finds once the payload is stored:
  the last one with that identifier.\<close>

definition last_with_id :: "KnowledgeBaseSyncPayload list \<Rightarrow> string \<Rightarrow> KnowledgeBaseSyncPayload option" where
  "last_with_id payload i = List.find (\<lambda>e. sid (metadata e) = i) (rev payload)"

section \<open>The query orchestrator: \<open>ApiKnowledgeService\<close>\<close>

record KnowledgeSearchResult =
  pageContent :: string
  score :: real
  result_metadata :: string

record ApiKnowledgeSearchRequest =
  query :: string
  knowledge_base_ids :: "string list"
  rewrite :: "string option"
  search_threshold :: "real option"
  top_k :: "int option"

record ApiKnowledgeSearchResponseItem =
  knowledge_base_id :: string
  knowledge_base_name :: string
  results :: "KnowledgeSearchResult list"

record ApiKnowledgeSearchResponse =
  object :: string
  data :: "ApiKnowledgeSearchResponseItem list"

text \<open>
  The three constants of \<open>@shared/config/knowledge\<close> are defined in another module;
  every function that reads one takes them as a parameter.
\<close>

record knowledge_config =
  DEFAULT_KNOWLEDGE_DOCUMENT_COUNT :: int
  DEFAULT_KNOWLEDGE_THRESHOLD :: real
  MAX_KNOWLEDGE_TOP_K :: int

text \<open>\<open>ApiKnowledgeSearchSchema\<close>, the zod schema the route parses a request body with
  before it calls \<open>search\<close>.\<close>

definition ApiKnowledgeSearchSchema :: "knowledge_config \<Rightarrow> ApiKnowledgeSearchRequest \<Rightarrow> bool" where
  "ApiKnowledgeSearchSchema cfg p =
     (1 \<le> length (query p) \<and> length (query p) \<le> 2000
      \<and> list_all (\<lambda>i. 1 \<le> length i) (knowledge_base_ids p)
      \<and> 1 \<le> length (knowledge_base_ids p)
      \<and> (case rewrite p of None \<Rightarrow> True | Some r \<Rightarrow> 1 \<le> length r \<and> length r \<le> 2000)
      \<and> (case search_threshold p of None \<Rightarrow> True | Some t \<Rightarrow> 0 \<le> t \<and> t \<le> 1)
      \<and> (case top_k p of None \<Rightarrow> True | Some k \<Rightarrow> 0 < k \<and> k \<le> MAX_KNOWLEDGE_TOP_K cfg))"

text \<open>\<open>String.prototype.trim\<close> on code units below 256: TAB, LF, VT, FF, CR, SP and NBSP
  are the white space and line terminators there.\<close>

definition is_white_space :: "char \<Rightarrow> bool" where
  "is_white_space c = (c \<in> set [CHR 0x09, CHR 0x0A, CHR 0x0B, CHR 0x0C, CHR 0x0D, CHR 0x20, CHR 0xA0])"

definition trim :: "string \<Rightarrow> string" where
  "trim s = rev (dropWhile is_white_space (rev (dropWhile is_white_space s)))"

text \<open>\<open>xs.slice(0, end)\<close>: a negative \<open>end\<close> counts from the end of the array.\<close>

definition slice0 :: "'a list \<Rightarrow> int \<Rightarrow> 'a list" where
  "slice0 xs end = (if end < 0 then take (nat (int (length xs) + end)) xs else take (nat end) xs)"

text \<open>\<open>payload.rewrite?.trim() ? payload.rewrite : payload.query\<close>; the empty string is
  the one falsy string.\<close>

definition searchQuery :: "ApiKnowledgeSearchRequest \<Rightarrow> string" where
  "searchQuery payload =
     (case rewrite payload of
        None \<Rightarrow> query payload
      | Some r \<Rightarrow> if trim r \<noteq> [] then r else query payload)"

text \<open>\<open>payload.top_k ? Math.min(payload.top_k, MAX_KNOWLEDGE_TOP_K) : undefined\<close>; zero is
  the one falsy integer.\<close>

definition limitOverride :: "knowledge_config \<Rightarrow> ApiKnowledgeSearchRequest \<Rightarrow> int option" where
  "limitOverride cfg payload =
     (case top_k payload of
        None \<Rightarrow> None
      | Some k \<Rightarrow> if k \<noteq> 0 then Some (min k (MAX_KNOWLEDGE_TOP_K cfg)) else None)"

text \<open>\<open>limitOverride ?? request.metadata.documentCount ?? DEFAULT_KNOWLEDGE_DOCUMENT_COUNT\<close>\<close>

definition allowedResults :: "knowledge_config \<Rightarrow> ApiKnowledgeSearchRequest \<Rightarrow> KnowledgeBaseSyncPayload \<Rightarrow> int" where
  "allowedResults cfg payload request =
     (case limitOverride cfg payload of
        Some l \<Rightarrow> l
      | None \<Rightarrow> (case documentCount (metadata request) of
                   Some d \<Rightarrow> d
                 | None \<Rightarrow> DEFAULT_KNOWLEDGE_DOCUMENT_COUNT cfg))"

text \<open>\<open>payload.threshold ?? request.metadata.threshold ?? DEFAULT_KNOWLEDGE_THRESHOLD\<close>\<close>

definition effective_threshold :: "knowledge_config \<Rightarrow> ApiKnowledgeSearchRequest \<Rightarrow> KnowledgeBaseSyncPayload \<Rightarrow> real" where
  "effective_threshold cfg payload request =
     (case search_threshold payload of
        Some t \<Rightarrow> t
      | None \<Rightarrow> (case threshold (metadata request) of
                   Some t \<Rightarrow> t
                 | None \<Rightarrow> DEFAULT_KNOWLEDGE_THRESHOLD cfg))"

text \<open>\<open>request.params.rerankApiClient?.model\<close> as a condition.\<close>

definition has_rerank_model :: "KnowledgeBaseParams \<Rightarrow> bool" where
  "has_rerank_model p = (case rerankApiClient p of None \<Rightarrow> False | Some c \<Rightarrow> client_model c \<noteq> [])"

text \<open>
  \<open>KnowledgeService.search\<close> and \<open>KnowledgeService.rerank\<close> are collaborators of another
  module: parameters here, each returning its results or the message of the error
  it throws. Every call is recorded, in order, with its arguments.
\<close>

datatype collaborator_call =
  SearchCall string KnowledgeBaseParams
| RerankCall string KnowledgeBaseParams "KnowledgeSearchResult list"

datatype search_error = NotReady | NoMatchingBases | UpstreamFailure string

type_synonym retrieve_fn = "string \<Rightarrow> KnowledgeBaseParams \<Rightarrow> string + KnowledgeSearchResult list"
type_synonym rerank_fn =
  "string \<Rightarrow> KnowledgeBaseParams \<Rightarrow> KnowledgeSearchResult list \<Rightarrow> string + KnowledgeSearchResult list"

fun is_rerank_call :: "collaborator_call \<Rightarrow> bool" where
  "is_rerank_call (RerankCall q p rs) = True"
| "is_rerank_call (SearchCall q p) = False"

fun rerank_input :: "collaborator_call \<Rightarrow> KnowledgeSearchResult list option" where
  "rerank_input (RerankCall q p rs) = Some rs"
| "rerank_input (SearchCall q p) = None"

text \<open>\<open>ragResults.filter((item) => item.score >= threshold)\<close>\<close>

definition filtered_by_threshold ::
  "knowledge_config \<Rightarrow> ApiKnowledgeSearchRequest \<Rightarrow> KnowledgeBaseSyncPayload
     \<Rightarrow> KnowledgeSearchResult list \<Rightarrow> KnowledgeSearchResult list" where
  "filtered_by_threshold cfg payload request ragResults =
     filter (\<lambda>item. score item \<ge> effective_threshold cfg payload request) ragResults"

text \<open>The body of the loop over the resolved bases, for one base.\<close>

definition search_base ::
  "knowledge_config \<Rightarrow> retrieve_fn \<Rightarrow> rerank_fn \<Rightarrow> ApiKnowledgeSearchRequest \<Rightarrow> KnowledgeBaseSyncPayload
     \<Rightarrow> collaborator_call list \<times> (search_error + ApiKnowledgeSearchResponseItem)" where
  "search_base cfg retrieve rerank payload request =
     (case retrieve (searchQuery payload) (params request) of
        Inl e \<Rightarrow> ([SearchCall (searchQuery payload) (params request)], Inl (UpstreamFailure e))
      | Inr ragResults \<Rightarrow>
          let filtered = filtered_by_threshold cfg payload request ragResults
          in if length filtered > 0 \<and> has_rerank_model (params request)
             then (case rerank (searchQuery payload) (params request) filtered of
                     Inl e \<Rightarrow>
                       ([SearchCall (searchQuery payload) (params request),
                         RerankCall (searchQuery payload) (params request) filtered],
                        Inl (UpstreamFailure e))
                   | Inr ranked \<Rightarrow>
                       ([SearchCall (searchQuery payload) (params request),
                         RerankCall (searchQuery payload) (params request) filtered],
                        Inr \<lparr>knowledge_base_id = sid (metadata request),
                             knowledge_base_name = name (metadata request),
                             results = slice0 ranked (allowedResults cfg payload request)\<rparr>))
             else ([SearchCall (searchQuery payload) (params request)],
                   Inr \<lparr>knowledge_base_id = sid (metadata request),
                        knowledge_base_name = name (metadata request),
                        results = slice0 filtered (allowedResults cfg payload request)\<rparr>))"

text \<open>The loop: a collaborator that throws ends the whole search.\<close>

fun search_loop ::
  "knowledge_config \<Rightarrow> retrieve_fn \<Rightarrow> rerank_fn \<Rightarrow> ApiKnowledgeSearchRequest \<Rightarrow> KnowledgeBaseSyncPayload list
     \<Rightarrow> ApiKnowledgeSearchResponseItem list
     \<Rightarrow> collaborator_call list \<times> (search_error + ApiKnowledgeSearchResponseItem list)" where
  "search_loop cfg retrieve rerank payload [] acc = ([], Inr acc)"
| "search_loop cfg retrieve rerank payload (request # requests) acc =
     (case search_base cfg retrieve rerank payload request of
        (calls, Inl e) \<Rightarrow> (calls, Inl e)
      | (calls, Inr item) \<Rightarrow>
          (case search_loop cfg retrieve rerank payload requests (acc @ [item]) of
             (calls', r) \<Rightarrow> (calls @ calls', r)))"

text \<open>The identifiers that resolve: \<open>ids.map(getBase).filter(Boolean)\<close>.\<close>

definition resolve :: "KnowledgeStoreService \<Rightarrow> string list \<Rightarrow> KnowledgeBaseSyncPayload list" where
  "resolve s ids = List.map_filter (\<lambda>i. getBase s i) ids"

definition search ::
  "knowledge_config \<Rightarrow> retrieve_fn \<Rightarrow> rerank_fn \<Rightarrow> KnowledgeStoreService \<Rightarrow> ApiKnowledgeSearchRequest
     \<Rightarrow> collaborator_call list \<times> (search_error + ApiKnowledgeSearchResponse)" where
  "search cfg retrieve rerank s payload =
     (if \<not> isSyncActive s \<or> \<not> hasBases s then ([], Inl NotReady)
      else
        let requests = resolve s (knowledge_base_ids payload)
        in if length requests = 0 then ([], Inl NoMatchingBases)
           else (case search_loop cfg retrieve rerank payload requests [] of
                   (calls, Inl e) \<Rightarrow> (calls, Inl e)
                 | (calls, Inr rs) \<Rightarrow> (calls, Inr \<lparr>object = ''list'', data = rs\<rparr>)))"

subsection \<open>The effective parameters as the specification words them\<close>

text \<open>
  The rewritten query if present and non-blank, else the original query; the request's
  \<open>top_k\<close> capped at the global maximum if present, else the base's document count, else
  the default; the request's threshold if present, else the base's, else the default.
\<close>

definition spec_effective_query :: "ApiKnowledgeSearchRequest \<Rightarrow> string" where
  "spec_effective_query payload =
     (case rewrite payload of
        Some r \<Rightarrow> if list_ex (\<lambda>c. \<not> is_white_space c) r then r else query payload
      | None \<Rightarrow> query payload)"

definition spec_effective_limit :: "knowledge_config \<Rightarrow> ApiKnowledgeSearchRequest \<Rightarrow> KnowledgeBaseSyncPayload \<Rightarrow> int" where
  "spec_effective_limit cfg payload request =
     (case top_k payload of
        Some k \<Rightarrow> min k (MAX_KNOWLEDGE_TOP_K cfg)
      | None \<Rightarrow> (case documentCount (metadata request) of
                   Some d \<Rightarrow> d
                 | None \<Rightarrow> DEFAULT_KNOWLEDGE_DOCUMENT_COUNT cfg))"

definition spec_effective_threshold :: "knowledge_config \<Rightarrow> ApiKnowledgeSearchRequest \<Rightarrow> KnowledgeBaseSyncPayload \<Rightarrow> real" where
  "spec_effective_threshold cfg payload request =
     (case search_threshold payload of
        Some t \<Rightarrow> t
      | None \<Rightarrow> (case threshold (metadata request) of
                   Some t \<Rightarrow> t
                 | None \<Rightarrow> DEFAULT_KNOWLEDGE_THRESHOLD cfg))"

section \<open>The owner side: \<open>KnowledgeStoreSyncService\<close>\<close>

record KnowledgeBase =
  kb_id :: string
  kb_name :: string
  kb_description :: "string option"
  kb_dimensions :: "int option"
  kb_documentCount :: "int option"
  kb_chunkSize :: "int option"
  kb_chunkOverlap :: "int option"
  kb_threshold :: "real option"
  kb_created_at :: int
  kb_updated_at :: int
  kb_version :: int
  kb_preprocessProvider :: "string option"
  kb_model :: Model
  kb_rerankModel :: "Model option"
  kb_items :: "string list option"

text \<open>The part of the redux root state the service reads: \<open>state.knowledge.bases\<close> and
  \<open>state.settings.apiServer?.knowledgeBaseIds\<close>.\<close>

record RootState =
  knowledge_bases :: "KnowledgeBase list option"
  apiServer_knowledgeBaseIds :: "string list option"

subsection \<open>Strings\<close>

text \<open>
  A number in a template literal is printed by \<open>Number::toString\<close>. The numbers printed
  here hold integers; an \<open>int\<close> stands for the Number nearest to it, which is the integer
  itself up to \<open>2^53\<close>. Up to there the digits are the decimal digits of the integer. Above,
  Numbers are \<open>ulp\<close> apart, and the digits are the fewest that still round to the Number,
  the nearest such value being taken; they are printed with zeros appended while the value
  has at most 21 digits, and in exponent form beyond.
\<close>

definition digit_char :: "int \<Rightarrow> char" where
  "digit_char d = ''0123456789'' ! nat d"

function decimal :: "int \<Rightarrow> string" where
  "decimal n = (if n < 10 then [digit_char n] else decimal (n div 10) @ [digit_char (n mod 10)])"
  by pat_completeness auto
termination
  by (relation "measure nat") auto

declare decimal.simps [simp del]

text \<open>The distance between neighbouring Numbers at \<open>m\<close>, for \<open>m\<close> from \<open>2^53\<close> on.\<close>

function ulp :: "int \<Rightarrow> int" where
  "ulp m = (if m < 9007199254740992 then 1 else 2 * ulp (m div 2))"
  by pat_completeness auto
termination
  by (relation "measure nat") auto

declare ulp.simps [simp del]

text \<open>The Number nearest to a non-negative integer, ties going to the even significand.\<close>

definition to_number :: "int \<Rightarrow> int" where
  "to_number m =
     (let u = ulp m; q = m div u; r = m mod u
      in if 2 * r < u then q * u
         else if u < 2 * r then (q + 1) * u
         else if q mod 2 = 0 then q * u else (q + 1) * u)"

text \<open>
  Whether the integer \<open>c\<close> rounds to the Number \<open>v\<close>: it lies between the midpoints to the
  neighbours of \<open>v\<close>, the midpoints included when the significand of \<open>v\<close> is even. Below a
  power of two the neighbour is half as far. Everything is taken four times, to stay in
  the integers.
\<close>

definition rounds_to :: "int \<Rightarrow> int \<Rightarrow> bool" where
  "rounds_to v c =
     (let u = ulp v; q = v div u;
          lo4 = 4 * v - (if q = 4503599627370496 then u else 2 * u);
          hi4 = 4 * v + 2 * u
      in if q mod 2 = 0 then lo4 \<le> 4 * c \<and> 4 * c \<le> hi4 else lo4 < 4 * c \<and> 4 * c < hi4)"

text \<open>The multiple of \<open>10^j\<close> nearest to \<open>v\<close> among those that round to \<open>v\<close>, if there is
  one; of two equally near, the one with the even digit string.\<close>

definition nearest_multiple :: "int \<Rightarrow> nat \<Rightarrow> int option" where
  "nearest_multiple v j =
     (let p = 10 ^ j; c1 = (v div p) * p; c2 = c1 + p
      in if rounds_to v c1 \<and> rounds_to v c2
         then (if v - c1 < c2 - v then Some c1
               else if c2 - v < v - c1 then Some c2
               else if (c1 div p) mod 2 = 0 then Some c1 else Some c2)
         else if rounds_to v c1 then Some c1
         else if rounds_to v c2 then Some c2
         else None)"

text \<open>The value with the fewest digits that rounds to \<open>v\<close>: the search goes from the most
  trailing zeros to none.\<close>

fun shortest :: "int \<Rightarrow> nat \<Rightarrow> int" where
  "shortest v 0 = v"
| "shortest v (Suc j) = (case nearest_multiple v (Suc j) of Some c \<Rightarrow> c | None \<Rightarrow> shortest v j)"

definition strip_zeros :: "string \<Rightarrow> string" where
  "strip_zeros s = rev (dropWhile (\<lambda>c. c = CHR ''0'') (rev s))"

definition format_digits :: "int \<Rightarrow> string" where
  "format_digits c =
     (let s = decimal c; n = length s
      in if n \<le> 21 then s
         else let sig = strip_zeros s;
                  mant = (if length sig = 1 then sig else hd sig # CHR ''.'' # tl sig)
              in mant @ ''e+'' @ decimal (int n - 1))"

definition number_to_string_nonneg :: "int \<Rightarrow> string" where
  "number_to_string_nonneg m =
     (if m < 9007199254740992 then decimal m
      else let v = to_number m
           in if 2 ^ 1024 \<le> v then ''Infinity''
              else format_digits (shortest v (length (decimal v) - 1)))"

definition number_to_string :: "int \<Rightarrow> string" where
  "number_to_string i =
     (if i < 0 then CHR ''-'' # number_to_string_nonneg (- i) else number_to_string_nonneg i)"

text \<open>\<open>Array.prototype.join\<close>\<close>

fun join :: "string \<Rightarrow> string list \<Rightarrow> string" where
  "join sep [] = []"
| "join sep [x] = x"
| "join sep (x # y # ys) = x @ sep @ join sep (y # ys)"

text \<open>
  \<open>Array.prototype.sort\<close> without a comparator orders strings by their code units. The
  sort is stable; it is written here as the insertion of each element, from the last to the
  first, before the first element that is not smaller.
\<close>

fun js_string_lt :: "string \<Rightarrow> string \<Rightarrow> bool" where
  "js_string_lt [] [] = False"
| "js_string_lt [] (y # ys) = True"
| "js_string_lt (x # xs) [] = False"
| "js_string_lt (x # xs) (y # ys) =
     (if (of_char x :: nat) < of_char y then True
      else if (of_char y :: nat) < of_char x then False
      else js_string_lt xs ys)"

fun js_insert :: "string \<Rightarrow> string list \<Rightarrow> string list" where
  "js_insert x [] = [x]"
| "js_insert x (y # ys) = (if js_string_lt y x then y # js_insert x ys else x # y # ys)"

definition js_sort :: "string list \<Rightarrow> string list" where
  "js_sort xs = foldr js_insert xs []"

subsection \<open>Snapshot and fingerprint\<close>

definition getSelectedKnowledgeBaseIds :: "RootState \<Rightarrow> string list" where
  "getSelectedKnowledgeBaseIds state =
     (let ids = (case apiServer_knowledgeBaseIds state of None \<Rightarrow> [] | Some l \<Rightarrow> l)
      in filter (\<lambda>i. i \<noteq> []) ids)"

definition filterBases :: "KnowledgeBase list \<Rightarrow> string list \<Rightarrow> KnowledgeBase list" where
  "filterBases bs selectedIds =
     (if length selectedIds = 0 then bs
      else filter (\<lambda>base. kb_id base \<in> set selectedIds) bs)"

definition state_bases :: "RootState \<Rightarrow> KnowledgeBase list" where
  "state_bases state = (case knowledge_bases state of None \<Rightarrow> [] | Some bs \<Rightarrow> bs)"

definition signature_entry :: "KnowledgeBase \<Rightarrow> string" where
  "signature_entry base =
     (let itemCount = (case kb_items base of None \<Rightarrow> 0 | Some its \<Rightarrow> int (length its))
      in kb_id base @ '':'' @ number_to_string (kb_updated_at base) @ '':''
         @ number_to_string (kb_version base) @ '':'' @ number_to_string itemCount)"

definition computeSignature :: "RootState \<Rightarrow> string" where
  "computeSignature state =
     (let bs = state_bases state;
          selectedIds = getSelectedKnowledgeBaseIds state;
          filteredBases = filterBases bs selectedIds;
          selectionSignature =
            (if length selectedIds > 0 then join '','' (js_sort selectedIds) else ''ALL'')
      in if length filteredBases = 0 then selectionSignature @ ''#EMPTY''
         else selectionSignature @ ''#'' @ join ''|'' (map signature_entry filteredBases))"

definition pickModel :: "Model \<Rightarrow> Model" where
  "pickModel m =
     \<lparr>model_id = model_id m, model_name = model_name m, model_provider = model_provider m,
      model_group = model_group m, model_description = model_description m\<rparr>"

definition toSummary :: "KnowledgeBase \<Rightarrow> KnowledgeBaseSummary" where
  "toSummary base =
     \<lparr>sid = kb_id base,
      name = kb_name base,
      description = kb_description base,
      dimensions = kb_dimensions base,
      documentCount = kb_documentCount base,
      chunkSize = kb_chunkSize base,
      chunkOverlap = kb_chunkOverlap base,
      threshold = kb_threshold base,
      created_at = kb_created_at base,
      updated_at = kb_updated_at base,
      version = kb_version base,
      preprocessProvider = kb_preprocessProvider base,
      model = pickModel (kb_model base),
      rerankModel = (case kb_rerankModel base of None \<Rightarrow> None | Some m \<Rightarrow> Some (pickModel m))\<rparr>"

text \<open>\<open>getKnowledgeBaseParams\<close> belongs to another module and is a parameter, taken to
  return for every base. The warning about selected identifiers that no base has is a log
  line only.\<close>

definition buildPayload :: "(KnowledgeBase \<Rightarrow> KnowledgeBaseParams) \<Rightarrow> RootState \<Rightarrow> KnowledgeBaseSyncPayload list" where
  "buildPayload getKnowledgeBaseParams state =
     (let bs = state_bases state;
          selectedIds = getSelectedKnowledgeBaseIds state;
          filteredBases = filterBases bs selectedIds
      in map (\<lambda>base. \<lparr>metadata = toSummary base, params = getKnowledgeBaseParams base\<rparr>) filteredBases)"

subsection \<open>The session controller\<close>

datatype SyncReason = initial | refresh | update

text \<open>
  The fields of the service, with the two things it acts on: \<open>listeners\<close> counts the
  callbacks it has subscribed to the redux store and not unsubscribed, and \<open>pushed\<close> lists
  the calls of \<open>window.api.knowledgeStore.syncBases\<close> it has made, in order. The field
  \<open>unsubscribe\<close> says whether the service holds an unsubscribe handle.
\<close>

record KnowledgeStoreSyncService =
  isSyncing :: bool
  hasInitialized :: bool
  unsubscribe :: bool
  lastSignature :: "string option"
  listeners :: nat
  pushed :: "(SyncReason \<times> KnowledgeBaseSyncPayload list) list"

definition initial_sync :: KnowledgeStoreSyncService where
  "initial_sync =
     \<lparr>isSyncing = False, hasInitialized = False, unsubscribe = False, lastSignature = None,
      listeners = 0, pushed = []\<rparr>"

text \<open>The argument \<open>bridge\<close> says whether \<open>window.api?.knowledgeStore\<close> is there; \<open>state\<close>
  is what \<open>store.getState()\<close> returns at the call. The two handlers that \<open>init\<close>
  registers when the bridge is there are \<open>startSync('initial')\<close> and \<open>stopSync\<close>, written
  \<open>sync_startSync\<close> and \<open>sync_stopSync\<close> here, the store replica having methods of the
  same names. A push is recorded where \<open>syncBases\<close> is called; the function runs up to
  that call before it first awaits.\<close>

definition init :: "bool \<Rightarrow> KnowledgeStoreSyncService \<Rightarrow> KnowledgeStoreSyncService" where
  "init bridge w = (if hasInitialized w then w else w\<lparr>hasInitialized := True\<rparr>)"

definition pushCurrentBases ::
  "bool \<Rightarrow> (KnowledgeBase \<Rightarrow> KnowledgeBaseParams) \<Rightarrow> SyncReason \<Rightarrow> RootState
     \<Rightarrow> KnowledgeStoreSyncService \<Rightarrow> KnowledgeStoreSyncService" where
  "pushCurrentBases bridge gp reason state w =
     (if \<not> isSyncing w \<or> \<not> bridge then w
      else w\<lparr>pushed := pushed w @ [(reason, buildPayload gp state)]\<rparr>)"

text \<open>The callback given to \<open>store.subscribe\<close>.\<close>

definition on_mutation ::
  "bool \<Rightarrow> (KnowledgeBase \<Rightarrow> KnowledgeBaseParams) \<Rightarrow> RootState
     \<Rightarrow> KnowledgeStoreSyncService \<Rightarrow> KnowledgeStoreSyncService" where
  "on_mutation bridge gp state w =
     (if \<not> isSyncing w then w
      else
        let signature = computeSignature state
        in if Some signature = lastSignature w then w
           else pushCurrentBases bridge gp update state (w\<lparr>lastSignature := Some signature\<rparr>))"

text \<open>A mutation of the store calls every subscribed callback.\<close>

definition notify ::
  "bool \<Rightarrow> (KnowledgeBase \<Rightarrow> KnowledgeBaseParams) \<Rightarrow> RootState
     \<Rightarrow> KnowledgeStoreSyncService \<Rightarrow> KnowledgeStoreSyncService" where
  "notify bridge gp state w = ((on_mutation bridge gp state) ^^ (listeners w)) w"

fun notify_all ::
  "bool \<Rightarrow> (KnowledgeBase \<Rightarrow> KnowledgeBaseParams) \<Rightarrow> RootState list
     \<Rightarrow> KnowledgeStoreSyncService \<Rightarrow> KnowledgeStoreSyncService" where
  "notify_all bridge gp [] w = w"
| "notify_all bridge gp (state # states) w = notify_all bridge gp states (notify bridge gp state w)"

definition sync_startSync ::
  "bool \<Rightarrow> (KnowledgeBase \<Rightarrow> KnowledgeBaseParams) \<Rightarrow> SyncReason \<Rightarrow> RootState
     \<Rightarrow> KnowledgeStoreSyncService \<Rightarrow> KnowledgeStoreSyncService" where
  "sync_startSync bridge gp reason state w =
     (if isSyncing w then pushCurrentBases bridge gp refresh state w
      else pushCurrentBases bridge gp reason state
             (w\<lparr>isSyncing := True,
                lastSignature := Some (computeSignature state),
                unsubscribe := True,
                listeners := Suc (listeners w)\<rparr>))"

definition sync_stopSync :: "KnowledgeStoreSyncService \<Rightarrow> KnowledgeStoreSyncService" where
  "sync_stopSync w =
     (let w' = w\<lparr>isSyncing := False, lastSignature := None\<rparr>
      in if unsubscribe w' then w'\<lparr>listeners := listeners w' - 1, unsubscribe := False\<rparr> else w')"

subsection \<open>The fingerprint as the specification words it\<close>

text \<open>
  The selection signature is the allow-list in lexicographic order, joined by commas, or
  \<open>ALL\<close> when there is no allow-list; the selected bases are those whose identifier is in
  the allow-list, or all of them; each contributes \<open>id:updatedAt:version:itemCount\<close>.
\<close>

definition spec_selection_signature :: "string list \<Rightarrow> string" where
  "spec_selection_signature allow = (if allow = [] then ''ALL'' else join '','' (sort allow))"

definition spec_selected :: "string list \<Rightarrow> KnowledgeBase list \<Rightarrow> KnowledgeBase list" where
  "spec_selected allow bs = (if allow = [] then bs else [b \<leftarrow> bs. kb_id b \<in> set allow])"

definition spec_fingerprint :: "string list \<Rightarrow> KnowledgeBase list \<Rightarrow> string" where
  "spec_fingerprint allow bs =
     spec_selection_signature allow @ ''#'' @
       (if spec_selected allow bs = [] then ''EMPTY''
        else join ''|''
               (map (\<lambda>b. kb_id b @ '':'' @ number_to_string (kb_updated_at b) @ '':''
                          @ number_to_string (kb_version b) @ '':''
                          @ number_to_string (case kb_items b of None \<Rightarrow> 0 | Some its \<Rightarrow> int (length its)))
                    (spec_selected allow bs)))"

section \<open>Concrete values\<close>

text \<open>
  The base of the service's unit test (\<open>kb-1\<close>, threshold 0.1), with the identifier, the
  name, the document count and the rerank client left open, and the results of the
  retrieval scenario (scores 0.05, 0.2 and 0.9).
\<close>

definition ex_model :: Model where
  "ex_model =
     \<lparr>model_id = ''model-1'', model_name = ''Test'', model_provider = ''openai'',
      model_group = ''default'', model_description = Some ''''\<rparr>"

definition ex_client :: "string \<Rightarrow> ApiClient" where
  "ex_client m =
     \<lparr>client_model = m, client_provider = ''openai'', client_apiKey = ''secret'',
      client_baseURL = ''https://api.openai.com''\<rparr>"

definition ex_entry :: "string \<Rightarrow> string \<Rightarrow> int option \<Rightarrow> ApiClient option \<Rightarrow> KnowledgeBaseSyncPayload" where
  "ex_entry i n dc rr =
     \<lparr>metadata =
        \<lparr>sid = i, name = n, description = Some '''', dimensions = Some 1536,
         documentCount = dc, chunkSize = Some 512, chunkOverlap = Some 128,
         threshold = Some (1 / 10), created_at = 1000, updated_at = 1000,
         version = 1, preprocessProvider = None, model = ex_model, rerankModel = None\<rparr>,
      params =
        \<lparr>params_id = i, embedApiClient = ex_client ''text-embedding-3-small'',
         rerankApiClient = rr\<rparr>\<rparr>"

definition ex_store :: "KnowledgeBaseSyncPayload list \<Rightarrow> KnowledgeStoreService" where
  "ex_store payload = snd (handleSyncPayload payload 5 (snd (startSync True initial_store)))"

definition ex_cfg :: knowledge_config where
  "ex_cfg = \<lparr>DEFAULT_KNOWLEDGE_DOCUMENT_COUNT = 6, DEFAULT_KNOWLEDGE_THRESHOLD = 0, MAX_KNOWLEDGE_TOP_K = 30\<rparr>"

definition ex_hit :: "string \<Rightarrow> real \<Rightarrow> KnowledgeSearchResult" where
  "ex_hit c sc = \<lparr>pageContent = c, score = sc, result_metadata = ''''\<rparr>"

definition ex_retrieve :: retrieve_fn where
  "ex_retrieve q p = Inr [ex_hit ''x'' (5 / 100), ex_hit ''y'' (2 / 10), ex_hit ''z'' (9 / 10)]"

text \<open>Two rerankers: one gives the results back in reverse order, one also gives each its
  own relevance score, here zero.\<close>

definition ex_rerank_reverse :: rerank_fn where
  "ex_rerank_reverse q p rs = Inr (rev rs)"

definition ex_rerank_rescore :: rerank_fn where
  "ex_rerank_rescore q p rs = Inr (map (\<lambda>r. r\<lparr>score := 0\<rparr>) (rev rs))"

definition ex_request :: "string list \<Rightarrow> string option \<Rightarrow> int option \<Rightarrow> ApiKnowledgeSearchRequest" where
  "ex_request ids rw k =
     \<lparr>query = ''what is it'', knowledge_base_ids = ids, rewrite = rw, search_threshold = None,
      top_k = k\<rparr>"

definition ex_base :: "string \<Rightarrow> KnowledgeBase" where
  "ex_base i =
     \<lparr>kb_id = i, kb_name = i, kb_description = None, kb_dimensions = Some 1536,
      kb_documentCount = Some 10, kb_chunkSize = None, kb_chunkOverlap = None,
      kb_threshold = Some (1 / 10), kb_created_at = 1000, kb_updated_at = 1234,
      kb_version = 2, kb_preprocessProvider = None, kb_model = ex_model,
      kb_rerankModel = None, kb_items = Some [''f1'', ''f2'', ''f3'']\<rparr>"

definition ex_getParams :: "KnowledgeBase \<Rightarrow> KnowledgeBaseParams" where
  "ex_getParams base =
     \<lparr>params_id = kb_id base, embedApiClient = ex_client (model_id (kb_model base)),
      rerankApiClient = None\<rparr>"

definition ex_state :: "string list \<Rightarrow> string list option \<Rightarrow> RootState" where
  "ex_state ids allow = \<lparr>knowledge_bases = Some (map ex_base ids), apiServer_knowledgeBaseIds = allow\<rparr>"

section \<open>Properties of the store replica\<close>

lemma map_of_map_set: "map_of (map_set k v m) = (map_of m)(k \<mapsto> v)"
  by (induction m) (auto simp: fun_eq_iff)

lemma map_set_fresh: "k \<notin> fst ` set m \<Longrightarrow> map_set k v m = m @ [(k, v)]"
  by (induction m) auto

lemma fold_map_set_lookup:
  "map_of (fold (\<lambda>e m. map_set (f e) e m) es m) = map_of m ++ map_of (rev (map (\<lambda>e. (f e, e)) es))"
proof (induction es arbitrary: m)
  case Nil
  then show ?case by simp
next
  case (Cons e es)
  show ?case
    by (simp add: Cons.IH map_of_map_set fun_eq_iff map_add_def split: option.splits)
qed

lemma fold_map_set_distinct:
  "distinct (map f es) \<Longrightarrow> f ` set es \<inter> fst ` set m = {} \<Longrightarrow>
   fold (\<lambda>e m. map_set (f e) e m) es m = m @ map (\<lambda>e. (f e, e)) es"
proof (induction es arbitrary: m)
  case Nil
  then show ?case by simp
next
  case (Cons e es)
  from Cons.prems have fresh: "f e \<notin> fst ` set m" by auto
  have step: "map_set (f e) e m = m @ [(f e, e)]" by (rule map_set_fresh [OF fresh])
  have "f ` set es \<inter> fst ` set (m @ [(f e, e)]) = {}"
    using Cons.prems by auto
  with Cons.prems Cons.IH [of "m @ [(f e, e)]"] step show ?case by simp
qed

lemma map_of_find: "map_of (map (\<lambda>e. (f e, e)) es) k = List.find (\<lambda>e. f e = k) es"
  by (induction es) auto

lemma map_set_keys: "fst ` set (map_set k v m) = insert k (fst ` set m)"
proof -
  have "dom (map_of (map_set k v m)) = insert k (dom (map_of m))"
    by (simp add: map_of_map_set)
  then show ?thesis by (simp add: dom_map_of_conv_image_fst)
qed

lemma map_set_distinct: "distinct (map fst m) \<Longrightarrow> distinct (map fst (map_set k v m))"
  by (induction m) (auto simp: map_set_keys)

lemma fold_map_set_keys_distinct:
  "distinct (map fst m) \<Longrightarrow> distinct (map fst (fold (\<lambda>e m. map_set (f e) e m) es m))"
  by (induction es arbitrary: m) (simp_all add: map_set_distinct)

lemma find_SomeD: "List.find P xs = Some x \<Longrightarrow> x \<in> set xs \<and> P x"
  by (induction xs) (auto split: if_splits)

lemma last_with_id_Some:
  "last_with_id payload i = Some e \<Longrightarrow> e \<in> set payload \<and> sid (metadata e) = i"
  using find_SomeD [of "\<lambda>e. sid (metadata e) = i" "rev payload" e] by (simp add: last_with_id_def)

lemma values_of_distinct_map:
  assumes "distinct (map fst bs)" and "\<And>i. map_of bs i = last_with_id payload i"
  shows "set (map snd bs) = {e \<in> set payload. last_with_id payload (sid (metadata e)) = Some e}"
proof (intro set_eqI iffI)
  fix e assume "e \<in> set (map snd bs)"
  then obtain k where "(k, e) \<in> set bs" by auto
  with assms(1) have "map_of bs k = Some e" by simp
  with assms(2) have l: "last_with_id payload k = Some e" by simp
  from last_with_id_Some [OF l] l
  show "e \<in> {e \<in> set payload. last_with_id payload (sid (metadata e)) = Some e}" by auto
next
  fix e assume "e \<in> {e \<in> set payload. last_with_id payload (sid (metadata e)) = Some e}"
  then have "map_of bs (sid (metadata e)) = Some e" using assms(2) by simp
  then have "(sid (metadata e), e) \<in> set bs" by (rule map_of_SomeD)
  then show "e \<in> set (map snd bs)" by force
qed

lemma store_inv_initial: "store_inv initial_store"
  by (simp add: store_inv_def initial_store_def)

lemma store_inv_startSync: "store_inv (snd (startSync mainWindow s))"
  by (simp add: store_inv_def startSync_def)

lemma store_inv_stopSync: "store_inv s \<Longrightarrow> store_inv (snd (stopSync mainWindow s))"
  by (auto simp: store_inv_def stopSync_def)

lemma store_inv_handleSyncPayload: "store_inv s \<Longrightarrow> store_inv (snd (handleSyncPayload payload now s))"
  by (auto simp: store_inv_def handleSyncPayload_def Let_def)

lemma reachable_inv: "reachable s \<Longrightarrow> store_inv s"
  by (induction rule: reachable.induct)
    (simp_all add: store_inv_initial store_inv_startSync store_inv_stopSync store_inv_handleSyncPayload)

lemma stopSync_cleared:
  "store_inv s \<Longrightarrow> snd (stopSync mainWindow s) = s\<lparr>isActive := False, bases := [], lastSyncedAt := None\<rparr>"
  by (cases s) (auto simp: store_inv_def stopSync_def)

section \<open>Properties of the query orchestrator\<close>

lemma search_base_retrieve_fails:
  "retrieve (searchQuery payload) (params request) = Inl e \<Longrightarrow>
   search_base cfg retrieve rerank payload request =
     ([SearchCall (searchQuery payload) (params request)], Inl (UpstreamFailure e))"
  by (simp add: search_base_def)

lemma search_base_no_rerank:
  "retrieve (searchQuery payload) (params request) = Inr rag \<Longrightarrow>
   \<not> (filtered_by_threshold cfg payload request rag \<noteq> [] \<and> has_rerank_model (params request)) \<Longrightarrow>
   search_base cfg retrieve rerank payload request =
     ([SearchCall (searchQuery payload) (params request)],
      Inr \<lparr>knowledge_base_id = sid (metadata request), knowledge_base_name = name (metadata request),
           results = slice0 (filtered_by_threshold cfg payload request rag) (allowedResults cfg payload request)\<rparr>)"
  by (auto simp add: search_base_def Let_def)

lemma search_base_rerank_fails:
  "retrieve (searchQuery payload) (params request) = Inr rag \<Longrightarrow>
   filtered_by_threshold cfg payload request rag \<noteq> [] \<Longrightarrow> has_rerank_model (params request) \<Longrightarrow>
   rerank (searchQuery payload) (params request) (filtered_by_threshold cfg payload request rag) = Inl e \<Longrightarrow>
   search_base cfg retrieve rerank payload request =
     ([SearchCall (searchQuery payload) (params request),
       RerankCall (searchQuery payload) (params request) (filtered_by_threshold cfg payload request rag)],
      Inl (UpstreamFailure e))"
  by (simp add: search_base_def Let_def)

lemma search_base_rerank_ok:
  "retrieve (searchQuery payload) (params request) = Inr rag \<Longrightarrow>
   filtered_by_threshold cfg payload request rag \<noteq> [] \<Longrightarrow> has_rerank_model (params request) \<Longrightarrow>
   rerank (searchQuery payload) (params request) (filtered_by_threshold cfg payload request rag) = Inr ranked \<Longrightarrow>
   search_base cfg retrieve rerank payload request =
     ([SearchCall (searchQuery payload) (params request),
       RerankCall (searchQuery payload) (params request) (filtered_by_threshold cfg payload request rag)],
      Inr \<lparr>knowledge_base_id = sid (metadata request), knowledge_base_name = name (metadata request),
           results = slice0 ranked (allowedResults cfg payload request)\<rparr>)"
  by (simp add: search_base_def Let_def)

lemma search_base_cases:
  obtains
    (retrieve_fails) e where "retrieve (searchQuery payload) (params request) = Inl e"
  | (no_rerank) rag where "retrieve (searchQuery payload) (params request) = Inr rag"
      "\<not> (filtered_by_threshold cfg payload request rag \<noteq> [] \<and> has_rerank_model (params request))"
  | (rerank_fails) rag e where "retrieve (searchQuery payload) (params request) = Inr rag"
      "filtered_by_threshold cfg payload request rag \<noteq> []" "has_rerank_model (params request)"
      "rerank (searchQuery payload) (params request) (filtered_by_threshold cfg payload request rag) = Inl e"
  | (rerank_ok) rag ranked where "retrieve (searchQuery payload) (params request) = Inr rag"
      "filtered_by_threshold cfg payload request rag \<noteq> []" "has_rerank_model (params request)"
      "rerank (searchQuery payload) (params request) (filtered_by_threshold cfg payload request rag) = Inr ranked"
proof (cases "retrieve (searchQuery payload) (params request)")
  case (Inl e)
  then show ?thesis by (rule retrieve_fails)
next
  case (Inr rag)
  show ?thesis
  proof (cases "filtered_by_threshold cfg payload request rag \<noteq> [] \<and> has_rerank_model (params request)")
    case False
    with Inr show ?thesis by (rule no_rerank)
  next
    case True
    show ?thesis
    proof (cases "rerank (searchQuery payload) (params request) (filtered_by_threshold cfg payload request rag)")
      case (Inl e)
      with Inr True show ?thesis using rerank_fails by blast
    next
      case r: (Inr ranked)
      with Inr True show ?thesis using rerank_ok by blast
    qed
  qed
qed

lemma search_base_error:
  assumes "search_base cfg retrieve rerank payload request = (calls, Inl e)"
  shows "\<exists>m. e = UpstreamFailure m"
proof (cases rule: search_base_cases [where retrieve = retrieve and payload = payload and request = request and cfg = cfg and rerank = rerank])
  case (retrieve_fails m)
  from search_base_retrieve_fails [where retrieve = retrieve and rerank = rerank, OF this] assms show ?thesis by auto
next
  case (no_rerank rag)
  from search_base_no_rerank [where retrieve = retrieve and rerank = rerank, OF this] assms show ?thesis by simp
next
  case (rerank_fails rag m)
  from search_base_rerank_fails [where retrieve = retrieve and rerank = rerank, OF this] assms show ?thesis by auto
next
  case (rerank_ok rag ranked)
  from search_base_rerank_ok [where retrieve = retrieve and rerank = rerank, OF this] assms show ?thesis by simp
qed

lemma search_loop_Cons:
  "search_loop cfg retrieve rerank payload (request # requests) acc =
     (case snd (search_base cfg retrieve rerank payload request) of
        Inl e \<Rightarrow> (fst (search_base cfg retrieve rerank payload request), Inl e)
      | Inr item \<Rightarrow>
          (fst (search_base cfg retrieve rerank payload request)
             @ fst (search_loop cfg retrieve rerank payload requests (acc @ [item])),
           snd (search_loop cfg retrieve rerank payload requests (acc @ [item]))))"
  by (simp split: prod.splits sum.splits)

lemma search_loop_error:
  "search_loop cfg retrieve rerank payload requests acc = (calls, Inl e) \<Longrightarrow> \<exists>m. e = UpstreamFailure m"
proof (induction requests arbitrary: acc calls)
  case Nil
  then show ?case by simp
next
  case (Cons request requests)
  show ?case
  proof (cases "snd (search_base cfg retrieve rerank payload request)")
    case (Inl e')
    with Cons.prems have "e' = e" by (simp del: search_loop.simps add: search_loop_Cons)
    with Inl search_base_error [of cfg retrieve rerank payload request _ e] show ?thesis
      by (metis prod.collapse)
  next
    case (Inr item)
    with Cons.prems have "snd (search_loop cfg retrieve rerank payload requests (acc @ [item])) = Inl e"
      by (simp del: search_loop.simps add: search_loop_Cons)
    with Cons.IH [of "acc @ [item]"] show ?thesis
      by (metis prod.collapse)
  qed
qed

lemma search_loop_items:
  "search_loop cfg retrieve rerank payload requests acc = (calls, Inr rs) \<Longrightarrow>
   \<exists>items. rs = acc @ items
     \<and> list_all2 (\<lambda>request item. snd (search_base cfg retrieve rerank payload request) = Inr item)
          requests items
     \<and> calls = concat (map (\<lambda>request. fst (search_base cfg retrieve rerank payload request)) requests)"
proof (induction requests arbitrary: acc calls)
  case Nil
  then show ?case by simp
next
  case (Cons request requests)
  show ?case
  proof (cases "snd (search_base cfg retrieve rerank payload request)")
    case (Inl e')
    with Cons.prems show ?thesis by (simp del: search_loop.simps add: search_loop_Cons)
  next
    case (Inr item)
    let ?rest = "search_loop cfg retrieve rerank payload requests (acc @ [item])"
    from Cons.prems Inr have calls: "calls = fst (search_base cfg retrieve rerank payload request) @ fst ?rest"
      and rest: "snd ?rest = Inr rs"
      by (simp_all del: search_loop.simps add: search_loop_Cons)
    from rest have "?rest = (fst ?rest, Inr rs)" by (metis prod.collapse)
    from Cons.IH [OF this] obtain items where
      items: "rs = (acc @ [item]) @ items"
        "list_all2 (\<lambda>request item. snd (search_base cfg retrieve rerank payload request) = Inr item) requests items"
        "fst ?rest = concat (map (\<lambda>request. fst (search_base cfg retrieve rerank payload request)) requests)"
      by blast
    show ?thesis
      by (rule exI [of _ "item # items"]) (simp add: items Inr calls)
  qed
qed

lemma search_loop_calls:
  "set (fst (search_loop cfg retrieve rerank payload requests acc))
     \<subseteq> (\<Union>request \<in> set requests. set (fst (search_base cfg retrieve rerank payload request)))"
proof (induction requests arbitrary: acc)
  case Nil
  then show ?case by simp
next
  case (Cons request requests)
  show ?case
  proof (cases "snd (search_base cfg retrieve rerank payload request)")
    case (Inl e')
    then show ?thesis by (simp del: search_loop.simps add: search_loop_Cons)
  next
    case (Inr item)
    with Cons.IH [of "acc @ [item]"] show ?thesis
      by (auto simp del: search_loop.simps simp add: search_loop_Cons)
  qed
qed

lemma search_success:
  assumes "search cfg retrieve rerank s payload = (calls, Inr resp)"
  shows "list_all2 (\<lambda>request item. snd (search_base cfg retrieve rerank payload request) = Inr item)
       (resolve s (knowledge_base_ids payload)) (data resp)
    \<and> calls = concat (map (\<lambda>request. fst (search_base cfg retrieve rerank payload request))
                        (resolve s (knowledge_base_ids payload)))"
proof -
  let ?requests = "resolve s (knowledge_base_ids payload)"
  let ?loop = "search_loop cfg retrieve rerank payload ?requests []"
  from assms have ready: "isSyncActive s" "hasBases s" "?requests \<noteq> []"
    by (auto simp: search_def Let_def split: if_splits)
  with assms have "(case ?loop of (calls, Inl e) \<Rightarrow> (calls, Inl e)
                     | (calls, Inr rs) \<Rightarrow> (calls, Inr \<lparr>object = ''list'', data = rs\<rparr>)) = (calls, Inr resp)"
    by (simp add: search_def Let_def)
  then have "?loop = (calls, Inr (data resp))"
    by (cases ?loop; cases "snd ?loop") auto
  from search_loop_items [OF this] show ?thesis by simp
qed

lemma search_base_item:
  assumes "snd (search_base cfg retrieve rerank payload request) = Inr item"
  shows "\<exists>rag ranked.
      retrieve (searchQuery payload) (params request) = Inr rag
    \<and> (if filtered_by_threshold cfg payload request rag \<noteq> [] \<and> has_rerank_model (params request)
       then rerank (searchQuery payload) (params request) (filtered_by_threshold cfg payload request rag) = Inr ranked
       else ranked = filtered_by_threshold cfg payload request rag)
    \<and> results item = slice0 ranked (allowedResults cfg payload request)
    \<and> knowledge_base_id item = sid (metadata request)
    \<and> knowledge_base_name item = name (metadata request)"
proof (cases rule: search_base_cases [where retrieve = retrieve and payload = payload and request = request and cfg = cfg and rerank = rerank])
  case (retrieve_fails m)
  from search_base_retrieve_fails [where retrieve = retrieve and rerank = rerank, OF this] assms
  show ?thesis by simp
next
  case (no_rerank rag)
  from search_base_no_rerank [where retrieve = retrieve and rerank = rerank, OF this] assms
  have "item = \<lparr>knowledge_base_id = sid (metadata request), knowledge_base_name = name (metadata request),
           results = slice0 (filtered_by_threshold cfg payload request rag) (allowedResults cfg payload request)\<rparr>"
    by simp
  with no_rerank show ?thesis by auto
next
  case (rerank_fails rag m)
  from search_base_rerank_fails [where retrieve = retrieve and rerank = rerank, OF this] assms
  show ?thesis by simp
next
  case (rerank_ok rag ranked)
  from search_base_rerank_ok [where retrieve = retrieve and rerank = rerank, OF this] assms
  have "item = \<lparr>knowledge_base_id = sid (metadata request), knowledge_base_name = name (metadata request),
           results = slice0 ranked (allowedResults cfg payload request)\<rparr>"
    by simp
  with rerank_ok show ?thesis by auto
qed

lemma slice0_prefix: "prefix (slice0 xs n) xs"
  by (simp add: slice0_def take_is_prefix)

lemma slice0_length: "0 \<le> n \<Longrightarrow> int (length (slice0 xs n)) \<le> n"
  by (simp add: slice0_def)

lemma slice0_set: "set (slice0 xs n) \<subseteq> set xs"
  by (auto simp: slice0_def dest: in_set_takeD)

lemma filtered_by_threshold_score:
  "r \<in> set (filtered_by_threshold cfg payload request rag) \<Longrightarrow> effective_threshold cfg payload request \<le> score r"
  by (simp add: filtered_by_threshold_def)

lemma filtered_by_threshold_subseq: "subseq (filtered_by_threshold cfg payload request rag) rag"
  by (simp add: filtered_by_threshold_def)

lemma search_base_bounds:
  assumes "snd (search_base cfg retrieve rerank payload request) = Inr item"
  shows "\<exists>rag ranked.
        retrieve (searchQuery payload) (params request) = Inr rag
      \<and> subseq (filtered_by_threshold cfg payload request rag) rag
      \<and> (\<forall>r \<in> set (filtered_by_threshold cfg payload request rag). effective_threshold cfg payload request \<le> score r)
      \<and> (if filtered_by_threshold cfg payload request rag \<noteq> [] \<and> has_rerank_model (params request)
         then rerank (searchQuery payload) (params request) (filtered_by_threshold cfg payload request rag) = Inr ranked
         else ranked = filtered_by_threshold cfg payload request rag)
      \<and> results item = slice0 ranked (allowedResults cfg payload request)
      \<and> prefix (results item) ranked
      \<and> (0 \<le> allowedResults cfg payload request \<longrightarrow>
           int (length (results item)) \<le> allowedResults cfg payload request)
      \<and> (set ranked \<subseteq> set (filtered_by_threshold cfg payload request rag) \<longrightarrow>
           (\<forall>r \<in> set (results item). effective_threshold cfg payload request \<le> score r))"
proof -
  from search_base_item [OF assms] obtain rag ranked where
    rag: "retrieve (searchQuery payload) (params request) = Inr rag"
    and ranked: "if filtered_by_threshold cfg payload request rag \<noteq> [] \<and> has_rerank_model (params request)
       then rerank (searchQuery payload) (params request) (filtered_by_threshold cfg payload request rag) = Inr ranked
       else ranked = filtered_by_threshold cfg payload request rag"
    and res: "results item = slice0 ranked (allowedResults cfg payload request)"
    by blast
  have sc: "\<forall>r \<in> set (results item). effective_threshold cfg payload request \<le> score r"
    if "set ranked \<subseteq> set (filtered_by_threshold cfg payload request rag)"
    using that slice0_set [of ranked "allowedResults cfg payload request"] filtered_by_threshold_score
    unfolding res by blast
  show ?thesis
    apply (rule exI [of _ rag], rule exI [of _ ranked])
    using rag ranked res sc slice0_prefix [of ranked] slice0_length [of _ ranked]
      filtered_by_threshold_subseq [of cfg payload request rag]
      filtered_by_threshold_score [of _ cfg payload request rag]
    by simp
qed

lemma has_rerank_model_iff:
  "has_rerank_model p \<longleftrightarrow> (\<exists>c. rerankApiClient p = Some c \<and> client_model c \<noteq> [])"
  by (simp add: has_rerank_model_def split: option.splits)

lemma search_base_rerank_input:
  "c \<in> set (fst (search_base cfg retrieve rerank payload request)) \<Longrightarrow> rerank_input c \<noteq> Some []"
proof (cases rule: search_base_cases [where retrieve = retrieve and payload = payload and request = request and cfg = cfg and rerank = rerank])
  case (retrieve_fails m)
  assume "c \<in> set (fst (search_base cfg retrieve rerank payload request))"
  with search_base_retrieve_fails [where retrieve = retrieve and rerank = rerank, OF retrieve_fails]
  show ?thesis by auto
next
  case (no_rerank rag)
  assume "c \<in> set (fst (search_base cfg retrieve rerank payload request))"
  with search_base_no_rerank [where retrieve = retrieve and rerank = rerank, OF no_rerank]
  show ?thesis by auto
next
  case (rerank_fails rag m)
  assume "c \<in> set (fst (search_base cfg retrieve rerank payload request))"
  with search_base_rerank_fails [where retrieve = retrieve and rerank = rerank, OF rerank_fails] rerank_fails(2)
  show ?thesis by auto
next
  case (rerank_ok rag ranked)
  assume "c \<in> set (fst (search_base cfg retrieve rerank payload request))"
  with search_base_rerank_ok [where retrieve = retrieve and rerank = rerank, OF rerank_ok] rerank_ok(2)
  show ?thesis by auto
qed

lemma search_calls:
  "set (fst (search cfg retrieve rerank s payload))
     \<subseteq> (\<Union>request \<in> set (resolve s (knowledge_base_ids payload)).
           set (fst (search_base cfg retrieve rerank payload request)))"
proof -
  let ?loop = "search_loop cfg retrieve rerank payload (resolve s (knowledge_base_ids payload)) []"
  have "fst (search cfg retrieve rerank s payload) = [] \<or> fst (search cfg retrieve rerank s payload) = fst ?loop"
    by (cases ?loop; cases "snd ?loop") (auto simp: search_def Let_def)
  with search_loop_calls [of cfg retrieve rerank payload "resolve s (knowledge_base_ids payload)" "[]"]
  show ?thesis by auto
qed

lemma resolve_filter:
  "resolve s ids = map (\<lambda>i. the (getBase s i)) [i \<leftarrow> ids. getBase s i \<noteq> None]"
  by (induction ids) (auto simp: resolve_def List.map_filter_simps split: option.splits)

lemma resolve_empty_iff: "resolve s ids = [] \<longleftrightarrow> (\<forall>i \<in> set ids. getBase s i = None)"
  by (simp add: resolve_filter filter_empty_conv)

lemma search_not_ready:
  "\<not> isSyncActive s \<or> \<not> hasBases s \<Longrightarrow> search cfg retrieve rerank s payload = ([], Inl NotReady)"
  by (auto simp: search_def)

lemma search_no_match:
  "isSyncActive s \<Longrightarrow> hasBases s \<Longrightarrow> resolve s (knowledge_base_ids payload) = [] \<Longrightarrow>
   search cfg retrieve rerank s payload = ([], Inl NoMatchingBases)"
  by (simp add: search_def)

lemma search_ready_error:
  assumes "isSyncActive s" "hasBases s" "resolve s (knowledge_base_ids payload) \<noteq> []"
    and "snd (search cfg retrieve rerank s payload) = Inl e"
  shows "\<exists>m. e = UpstreamFailure m"
proof -
  let ?loop = "search_loop cfg retrieve rerank payload (resolve s (knowledge_base_ids payload)) []"
  from assms have "snd ?loop = Inl e"
    by (cases ?loop; cases "snd ?loop") (auto simp: search_def Let_def)
  then have "?loop = (fst ?loop, Inl e)" by (metis prod.collapse)
  from search_loop_error [OF this] show ?thesis .
qed

lemma trim_nonblank: "trim r \<noteq> [] \<longleftrightarrow> list_ex (\<lambda>c. \<not> is_white_space c) r"
proof -
  have "trim r = [] \<longleftrightarrow> dropWhile is_white_space r = []"
  proof (cases "dropWhile is_white_space r")
    case Nil
    show ?thesis unfolding trim_def Nil by simp
  next
    case (Cons x xs)
    then have "\<not> is_white_space x"
      by (metis hd_dropWhile list.sel(1) list.distinct(1))
    then have "dropWhile is_white_space (rev (x # xs)) \<noteq> []"
      by (auto simp: dropWhile_eq_Nil_conv)
    then show ?thesis unfolding trim_def Cons by simp
  qed
  then show ?thesis
    by (simp add: dropWhile_eq_Nil_conv list_ex_iff)
qed

lemma searchQuery_spec: "searchQuery payload = spec_effective_query payload"
  by (simp add: searchQuery_def spec_effective_query_def trim_nonblank split: option.splits)

lemma effective_threshold_spec:
  "effective_threshold cfg payload request = spec_effective_threshold cfg payload request"
  by (simp add: effective_threshold_def spec_effective_threshold_def)

lemma allowedResults_spec:
  "top_k payload \<noteq> Some 0 \<Longrightarrow> allowedResults cfg payload request = spec_effective_limit cfg payload request"
  by (simp add: allowedResults_def limitOverride_def spec_effective_limit_def split: option.splits)

lemma schema_top_k: "ApiKnowledgeSearchSchema cfg payload \<Longrightarrow> top_k payload \<noteq> Some 0"
  by (auto simp: ApiKnowledgeSearchSchema_def)

section \<open>Properties of the owner side\<close>

lemma js_string_lt_iff: "js_string_lt x y \<longleftrightarrow> x < y"
  by (induction x y rule: js_string_lt.induct) (auto simp: less_char_def of_char_eq_iff)

lemma js_insert_insort: "js_insert x ys = insort x ys"
  by (induction ys) (auto simp: js_string_lt_iff)

lemma js_sort_sort: "js_sort xs = sort xs"
proof -
  have "js_insert = insort" by (intro ext) (rule js_insert_insort)
  then show ?thesis by (simp add: js_sort_def sort_key_def)
qed

lemma filterBases_spec: "filterBases bs ids = spec_selected ids bs"
  by (simp add: filterBases_def spec_selected_def)

lemma computeSignature_spec:
  "computeSignature state = spec_fingerprint (getSelectedKnowledgeBaseIds state) (state_bases state)"
  by (simp add: computeSignature_def spec_fingerprint_def spec_selection_signature_def
      filterBases_spec js_sort_sort signature_entry_def [abs_def] Let_def)

lemma join_contains:
  "xs \<noteq> [] \<Longrightarrow> \<forall>x \<in> set xs. c \<in> set x \<Longrightarrow> c \<in> set (join sep xs)"
  by (induction sep xs rule: join.induct) auto

lemma signature_entry_colon: "CHR '':'' \<in> set (signature_entry b)"
  by (simp add: signature_entry_def Let_def)

lemma entries_not_EMPTY:
  assumes "bs \<noteq> []"
  shows "join ''|'' (map signature_entry bs) \<noteq> ''EMPTY''"
proof
  assume eq: "join ''|'' (map signature_entry bs) = ''EMPTY''"
  from assms have "CHR '':'' \<in> set (join ''|'' (map signature_entry bs))"
    by (intro join_contains) (auto simp: signature_entry_colon)
  with eq show False by simp
qed

lemma getSelected_clean:
  "apiServer_knowledgeBaseIds state = Some allow \<Longrightarrow> \<forall>i \<in> set allow. i \<noteq> [] \<Longrightarrow>
   getSelectedKnowledgeBaseIds state = allow"
  by (simp add: getSelectedKnowledgeBaseIds_def)

lemma number_to_string_safe:
  "\<bar>n\<bar> < 9007199254740992 \<Longrightarrow>
   number_to_string n = (if n < 0 then CHR ''-'' # decimal (- n) else decimal n)"
  by (auto simp: number_to_string_def number_to_string_nonneg_def)

lemma number_to_string_big:
  "number_to_string 1000000000000000000000 = ''1e+21''"
  "number_to_string 1152921504606846976 = ''1152921504606847000''"
  "number_to_string 1180591620717411303424 = ''1.1805916207174113e+21''"
  "number_to_string (- 1700000000123) = ''-1700000000123''"
  by code_simp+

lemma getSelected_None:
  "apiServer_knowledgeBaseIds state = None \<Longrightarrow> getSelectedKnowledgeBaseIds state = []"
  by (simp add: getSelectedKnowledgeBaseIds_def)

lemma getSelected_Some:
  "apiServer_knowledgeBaseIds state = Some allow \<Longrightarrow>
   getSelectedKnowledgeBaseIds state = [i \<leftarrow> allow. i \<noteq> []]"
  by (simp add: getSelectedKnowledgeBaseIds_def)

lemma sort_a_c: "js_sort [''a'', ''c''] = [''a'', ''c'']"
  by code_simp

lemma funpow_fixed: "f x = x \<Longrightarrow> (f ^^ n) x = x"
  by (induction n) simp_all

lemma on_mutation_same:
  "isSyncing w \<Longrightarrow> lastSignature w = Some (computeSignature state) \<Longrightarrow> on_mutation bridge gp state w = w"
  by (simp add: on_mutation_def)

lemma notify_same:
  "isSyncing w \<Longrightarrow> lastSignature w = Some (computeSignature state) \<Longrightarrow> notify bridge gp state w = w"
  by (simp add: notify_def funpow_fixed on_mutation_same)

lemma notify_all_same:
  "isSyncing w \<Longrightarrow> lastSignature w = Some sig \<Longrightarrow> \<forall>st \<in> set states. computeSignature st = sig \<Longrightarrow>
   notify_all bridge gp states w = w"
  by (induction states) (simp_all add: notify_same)

lemma sync_startSync_inactive:
  "\<not> isSyncing w \<Longrightarrow> bridge \<Longrightarrow>
   sync_startSync bridge gp reason state w =
     w\<lparr>isSyncing := True, lastSignature := Some (computeSignature state), unsubscribe := True,
       listeners := Suc (listeners w), pushed := pushed w @ [(reason, buildPayload gp state)]\<rparr>"
  by (simp add: sync_startSync_def pushCurrentBases_def)

lemma sync_startSync_active:
  "isSyncing w \<Longrightarrow> bridge \<Longrightarrow>
   sync_startSync bridge gp reason state w = w\<lparr>pushed := pushed w @ [(refresh, buildPayload gp state)]\<rparr>"
  by (simp add: sync_startSync_def pushCurrentBases_def)

section \<open>The claims\<close>

subsection \<open>C1: accepting a snapshot\<close>

text \<open>
  Claim C1. While the session is inactive, \<open>handleSyncPayload\<close> answers ``not accepted''
  and changes nothing. While it is active, it answers ``accepted'' with the time of the
  call, keeps the session active and stores that time, and it replaces the map: the map
  has one entry per identifier, the entries it holds are exactly those entries of the
  payload that are the last with their identifier, and a lookup by identifier finds that
  entry, so nothing of the old map survives. For a snapshot, whose entries have pairwise
  distinct identifiers, the entries held are then exactly the entries of the payload, and
  \<open>getBases\<close> is exactly its metadata, in the payload's order and hence as a set.
\<close>

theorem handleSyncPayload_replace:
  "(\<not> isActive s \<longrightarrow> handleSyncPayload payload now s = (\<lparr>accepted = False, syncedAt = None\<rparr>, s))
   \<and> (isActive s \<longrightarrow>
        fst (handleSyncPayload payload now s) = \<lparr>accepted = True, syncedAt = Some now\<rparr>
        \<and> isActive (snd (handleSyncPayload payload now s))
        \<and> lastSyncedAt (snd (handleSyncPayload payload now s)) = Some now
        \<and> distinct (map fst (bases (snd (handleSyncPayload payload now s))))
        \<and> set (map_values (bases (snd (handleSyncPayload payload now s))))
            = {e \<in> set payload. last_with_id payload (sid (metadata e)) = Some e}
        \<and> (\<forall>i. getBase (snd (handleSyncPayload payload now s)) i = last_with_id payload i)
        \<and> (distinct (map (\<lambda>e. sid (metadata e)) payload) \<longrightarrow>
             map_values (bases (snd (handleSyncPayload payload now s))) = payload
           \<and> getBases (snd (handleSyncPayload payload now s)) = map metadata payload
           \<and> set (getBases (snd (handleSyncPayload payload now s))) = set (map metadata payload)))"
proof (cases "isActive s")
  case False
  then show ?thesis by (simp add: handleSyncPayload_def)
next
  case True
  let ?bs = "fold (\<lambda>e m. map_set (sid (metadata e)) e m) payload []"
  have st: "snd (handleSyncPayload payload now s) = s\<lparr>bases := ?bs, lastSyncedAt := Some now\<rparr>"
    and r: "fst (handleSyncPayload payload now s) = \<lparr>accepted = True, syncedAt = Some now\<rparr>"
    using True by (simp_all add: handleSyncPayload_def Let_def)
  have keys: "distinct (map fst ?bs)"
    by (rule fold_map_set_keys_distinct) simp
  have look: "map_of ?bs i = last_with_id payload i" for i
    by (simp add: fold_map_set_lookup last_with_id_def rev_map map_of_find)
  have vals: "set (map snd ?bs) = {e \<in> set payload. last_with_id payload (sid (metadata e)) = Some e}"
    using keys look by (rule values_of_distinct_map)
  have dist: "?bs = map (\<lambda>e. (sid (metadata e), e)) payload"
    if "distinct (map (\<lambda>e. sid (metadata e)) payload)"
    using fold_map_set_distinct [OF that, of "[]"] by simp
  have a: "distinct (map fst (bases (snd (handleSyncPayload payload now s))))"
    using keys by (simp add: st)
  have b: "set (map_values (bases (snd (handleSyncPayload payload now s))))
            = {e \<in> set payload. last_with_id payload (sid (metadata e)) = Some e}"
    using vals by (simp add: st map_values_def)
  have c: "\<forall>i. getBase (snd (handleSyncPayload payload now s)) i = last_with_id payload i"
    using look by (simp add: st getBase_def map_get_def)
  have d: "map_values (bases (snd (handleSyncPayload payload now s))) = payload
           \<and> getBases (snd (handleSyncPayload payload now s)) = map metadata payload
           \<and> set (getBases (snd (handleSyncPayload payload now s))) = set (map metadata payload)"
    if "distinct (map (\<lambda>e. sid (metadata e)) payload)"
    using dist [OF that] by (simp add: st getBases_def map_values_def comp_def)
  have e: "isActive (snd (handleSyncPayload payload now s))"
    "lastSyncedAt (snd (handleSyncPayload payload now s)) = Some now"
    using True by (simp_all add: st)
  from True r e a b c d show ?thesis by blast
qed

text \<open>An inactive store rejects a payload; an active store holding \<open>kb-1\<close> that receives
  \<open>kb-2\<close> and \<open>kb-3\<close> lists exactly these two, and \<open>kb-1\<close> is gone.\<close>

theorem handleSyncPayload_replace_witness:
  "handleSyncPayload [ex_entry ''kb-1'' ''Docs'' (Some 10) None] 5 initial_store
     = (\<lparr>accepted = False, syncedAt = None\<rparr>, initial_store)
   \<and> fst (handleSyncPayload [ex_entry ''kb-2'' ''Notes'' (Some 10) None, ex_entry ''kb-3'' ''Code'' None None] 7
          (ex_store [ex_entry ''kb-1'' ''Docs'' (Some 10) None]))
       = \<lparr>accepted = True, syncedAt = Some 7\<rparr>
   \<and> getBases (snd (handleSyncPayload [ex_entry ''kb-2'' ''Notes'' (Some 10) None, ex_entry ''kb-3'' ''Code'' None None] 7
          (ex_store [ex_entry ''kb-1'' ''Docs'' (Some 10) None])))
       = [metadata (ex_entry ''kb-2'' ''Notes'' (Some 10) None), metadata (ex_entry ''kb-3'' ''Code'' None None)]
   \<and> set (getBases (snd (handleSyncPayload [ex_entry ''kb-2'' ''Notes'' (Some 10) None, ex_entry ''kb-3'' ''Code'' None None] 7
          (ex_store [ex_entry ''kb-1'' ''Docs'' (Some 10) None]))))
       = set (map metadata [ex_entry ''kb-2'' ''Notes'' (Some 10) None, ex_entry ''kb-3'' ''Code'' None None])
   \<and> getBase (snd (handleSyncPayload [ex_entry ''kb-2'' ''Notes'' (Some 10) None, ex_entry ''kb-3'' ''Code'' None None] 7
          (ex_store [ex_entry ''kb-1'' ''Docs'' (Some 10) None]))) ''kb-1'' = None"
proof -
  let ?p = "[ex_entry ''kb-2'' ''Notes'' (Some 10) None, ex_entry ''kb-3'' ''Code'' None None]"
  let ?s = "ex_store [ex_entry ''kb-1'' ''Docs'' (Some 10) None]"
  have inactive: "\<not> isActive initial_store" by (simp add: initial_store_def)
  have active: "isActive ?s"
    by (simp add: ex_store_def handleSyncPayload_def startSync_def initial_store_def Let_def)
  have dist: "distinct (map (\<lambda>e. sid (metadata e)) ?p)" by (simp add: ex_entry_def)
  have gone: "last_with_id ?p ''kb-1'' = None" by (simp add: last_with_id_def ex_entry_def)
  from handleSyncPayload_replace [of initial_store "[ex_entry ''kb-1'' ''Docs'' (Some 10) None]" 5] inactive
  have a: "handleSyncPayload [ex_entry ''kb-1'' ''Docs'' (Some 10) None] 5 initial_store
     = (\<lparr>accepted = False, syncedAt = None\<rparr>, initial_store)" by blast
  note at = handleSyncPayload_replace [of ?s ?p 7, THEN conjunct2, rule_format, OF active]
  have b1: "fst (handleSyncPayload ?p 7 ?s) = \<lparr>accepted = True, syncedAt = Some 7\<rparr>"
    by (rule at [THEN conjunct1])
  from at have look: "\<forall>i. getBase (snd (handleSyncPayload ?p 7 ?s)) i = last_with_id ?p i"
    by blast
  from at dist have b2: "getBases (snd (handleSyncPayload ?p 7 ?s)) = map metadata ?p"
    and b3: "set (getBases (snd (handleSyncPayload ?p 7 ?s))) = set (map metadata ?p)"
    by blast+
  from look gone have b4: "getBase (snd (handleSyncPayload ?p 7 ?s)) ''kb-1'' = None"
    by simp
  from b2 have b2': "getBases (snd (handleSyncPayload ?p 7 ?s))
      = [metadata (ex_entry ''kb-2'' ''Notes'' (Some 10) None), metadata (ex_entry ''kb-3'' ''Code'' None None)]"
    by simp
  from a b1 b2' b3 b4 show ?thesis by (intro conjI)
qed

subsection \<open>C2: no redundant pushes\<close>

text \<open>
  Claim C2. While the service is syncing, a mutation notification whose fingerprint equals
  the stored one changes nothing: no push is made. When a sync starts, with the bridge to
  the main process in place, and every later mutation has the fingerprint of the state at
  the start, the pushes made are the ones made before plus exactly one, the snapshot pushed
  at the start, however many mutations follow.
\<close>

theorem no_redundant_pushes:
  "(isSyncing w \<and> lastSignature w = Some (computeSignature state) \<longrightarrow>
        notify bridge gp state w = w)
   \<and> (bridge \<and> \<not> isSyncing w \<and> (\<forall>st \<in> set states. computeSignature st = computeSignature state0) \<longrightarrow>
        pushed (notify_all bridge gp states (sync_startSync bridge gp reason state0 w))
          = pushed w @ [(reason, buildPayload gp state0)])"
proof -
  have "pushed (notify_all bridge gp states (sync_startSync bridge gp reason state0 w))
          = pushed w @ [(reason, buildPayload gp state0)]"
    if "bridge" "\<not> isSyncing w" "\<forall>st \<in> set states. computeSignature st = computeSignature state0"
  proof -
    let ?w = "sync_startSync bridge gp reason state0 w"
    have "isSyncing ?w" "lastSignature ?w = Some (computeSignature state0)"
      using that by (simp_all add: sync_startSync_inactive)
    from notify_all_same [OF this that(3)] have "notify_all bridge gp states ?w = ?w" .
    then show ?thesis using that by (simp add: sync_startSync_inactive)
  qed
  then show ?thesis using notify_same by blast
qed

text \<open>Three mutations after the start, one of them a rename that leaves the fingerprint
  as it was: one push in all.\<close>


theorem no_redundant_pushes_witness:
  "computeSignature \<lparr>knowledge_bases = Some [(ex_base ''a'')\<lparr>kb_name := ''renamed''\<rparr>], apiServer_knowledgeBaseIds = None\<rparr>
     = computeSignature (ex_state [''a''] None)
   \<and> pushed (notify_all True ex_getParams
        [ex_state [''a''] None,
         \<lparr>knowledge_bases = Some [(ex_base ''a'')\<lparr>kb_name := ''renamed''\<rparr>], apiServer_knowledgeBaseIds = None\<rparr>,
         ex_state [''a''] None]
        (sync_startSync True ex_getParams initial (ex_state [''a''] None) initial_sync))
     = [(initial, buildPayload ex_getParams (ex_state [''a''] None))]
   \<and> notify True ex_getParams (ex_state [''a''] None)
        (sync_startSync True ex_getParams initial (ex_state [''a''] None) initial_sync)
     = sync_startSync True ex_getParams initial (ex_state [''a''] None) initial_sync"
proof -
  let ?s0 = "ex_state [''a''] None"
  let ?s1 = "\<lparr>knowledge_bases = Some [(ex_base ''a'')\<lparr>kb_name := ''renamed''\<rparr>], apiServer_knowledgeBaseIds = None\<rparr>"
  let ?w = "sync_startSync True ex_getParams initial ?s0 initial_sync"
  have same: "computeSignature ?s1 = computeSignature ?s0"
    by (simp add: computeSignature_def state_bases_def getSelectedKnowledgeBaseIds_def filterBases_def
        signature_entry_def ex_state_def ex_base_def)
  have all: "\<forall>st \<in> set [?s0, ?s1, ?s0]. computeSignature st = computeSignature ?s0"
    using same by simp
  have idle: "\<not> isSyncing initial_sync" "pushed initial_sync = []"
    by (simp_all add: initial_sync_def)
  have act: "isSyncing ?w" "lastSignature ?w = Some (computeSignature ?s0)"
    by (simp_all add: sync_startSync_def pushCurrentBases_def initial_sync_def)
  from no_redundant_pushes [of initial_sync ?s0 True ex_getParams "[?s0, ?s1, ?s0]" ?s0 initial]
  have "True \<and> \<not> isSyncing initial_sync \<and> (\<forall>st \<in> set [?s0, ?s1, ?s0]. computeSignature st = computeSignature ?s0) \<longrightarrow>
        pushed (notify_all True ex_getParams [?s0, ?s1, ?s0] ?w)
          = pushed initial_sync @ [(initial, buildPayload ex_getParams ?s0)]"
    by (rule conjunct2)
  with all idle(1) have "pushed (notify_all True ex_getParams [?s0, ?s1, ?s0] ?w)
          = pushed initial_sync @ [(initial, buildPayload ex_getParams ?s0)]"
    by blast
  then have a: "pushed (notify_all True ex_getParams [?s0, ?s1, ?s0] ?w) = [(initial, buildPayload ex_getParams ?s0)]"
    by (simp only: idle(2) append_Nil)
  from no_redundant_pushes [of ?w ?s0 True ex_getParams "[]" ?s0 initial] act
  have b: "notify True ex_getParams ?s0 ?w = ?w"
    by blast
  from same a b show ?thesis by (intro conjI)
qed

subsection \<open>C3: results within the limit and above the threshold\<close>

text \<open>
  Claim C3, as amended. When a search succeeds, each resolved base has its item, in order,
  and for each: retrieval returned a sequence; the filtered sequence is a subsequence of it
  (the order of retrieval is kept) and holds only results whose score is at least the
  effective threshold; the ranked sequence is the output of the reranker when the filtered
  sequence is not empty and the base has a rerank model, and the filtered sequence
  otherwise; the results of the item are \<open>slice(0, limit)\<close> of the ranked sequence, a prefix
  of it, of length at most the effective limit whenever that limit is not negative; and
  every result of the item has a score of at least the effective threshold whenever the
  ranked sequence holds only results of the filtered one, as it does when the reranker is
  not called.
\<close>

theorem search_results_within_bounds:
  assumes "search cfg retrieve rerank s payload = (calls, Inr resp)"
  shows "list_all2
           (\<lambda>request item.
              \<exists>rag ranked.
                retrieve (searchQuery payload) (params request) = Inr rag
              \<and> subseq (filtered_by_threshold cfg payload request rag) rag
              \<and> (\<forall>r \<in> set (filtered_by_threshold cfg payload request rag).
                   effective_threshold cfg payload request \<le> score r)
              \<and> (if filtered_by_threshold cfg payload request rag \<noteq> [] \<and> has_rerank_model (params request)
                 then rerank (searchQuery payload) (params request)
                        (filtered_by_threshold cfg payload request rag) = Inr ranked
                 else ranked = filtered_by_threshold cfg payload request rag)
              \<and> results item = slice0 ranked (allowedResults cfg payload request)
              \<and> prefix (results item) ranked
              \<and> (0 \<le> allowedResults cfg payload request \<longrightarrow>
                   int (length (results item)) \<le> allowedResults cfg payload request)
              \<and> (set ranked \<subseteq> set (filtered_by_threshold cfg payload request rag) \<longrightarrow>
                   (\<forall>r \<in> set (results item). effective_threshold cfg payload request \<le> score r)))
           (resolve s (knowledge_base_ids payload)) (data resp)"
proof -
  from search_success [OF assms]
  have "list_all2 (\<lambda>request item. snd (search_base cfg retrieve rerank payload request) = Inr item)
          (resolve s (knowledge_base_ids payload)) (data resp)"
    by simp
  then show ?thesis
    by (rule list_all2_mono) (rule search_base_bounds)
qed

text \<open>
  One search over two bases. Base \<open>a\<close> has document count \<open>-1\<close> and no reranker: of its
  two filtered results \<open>slice(0, -1)\<close> keeps one, more than the limit. Base \<open>b\<close> has a
  reranker that gives its own scores: both returned scores are below the threshold 0.1.
\<close>

theorem search_results_counterexample:
  "snd (search ex_cfg ex_retrieve ex_rerank_rescore
      (ex_store [ex_entry ''a'' ''A'' (Some (- 1)) None, ex_entry ''b'' ''B'' (Some 10) (Some (ex_client ''rr''))])
      (ex_request [''a'', ''b''] None None)) =
   Inr \<lparr>object = ''list'',
        data = [\<lparr>knowledge_base_id = ''a'', knowledge_base_name = ''A'', results = [ex_hit ''y'' (2 / 10)]\<rparr>,
                \<lparr>knowledge_base_id = ''b'', knowledge_base_name = ''B'',
                 results = [ex_hit ''z'' 0, ex_hit ''y'' 0]\<rparr>]\<rparr>
   \<and> allowedResults ex_cfg (ex_request [''a'', ''b''] None None) (ex_entry ''a'' ''A'' (Some (- 1)) None) = - 1
   \<and> \<not> int (length [ex_hit ''y'' (2 / 10)])
         \<le> allowedResults ex_cfg (ex_request [''a'', ''b''] None None) (ex_entry ''a'' ''A'' (Some (- 1)) None)
   \<and> effective_threshold ex_cfg (ex_request [''a'', ''b''] None None)
        (ex_entry ''b'' ''B'' (Some 10) (Some (ex_client ''rr''))) = 1 / 10
   \<and> score (ex_hit ''z'' 0)
        < effective_threshold ex_cfg (ex_request [''a'', ''b''] None None)
            (ex_entry ''b'' ''B'' (Some 10) (Some (ex_client ''rr'')))"
  by code_simp

text \<open>A search with \<open>top_k = 1\<close> on a base with a reranker that reverses: one result.\<close>

theorem search_results_within_bounds_witness:
  "search ex_cfg ex_retrieve ex_rerank_reverse
      (ex_store [ex_entry ''kb-1'' ''Docs'' (Some 10) (Some (ex_client ''rr''))])
      (ex_request [''kb-1''] None (Some 1))
    = ([SearchCall ''what is it'' (params (ex_entry ''kb-1'' ''Docs'' (Some 10) (Some (ex_client ''rr'')))),
        RerankCall ''what is it'' (params (ex_entry ''kb-1'' ''Docs'' (Some 10) (Some (ex_client ''rr''))))
          [ex_hit ''y'' (2 / 10), ex_hit ''z'' (9 / 10)]],
       Inr \<lparr>object = ''list'',
            data = [\<lparr>knowledge_base_id = ''kb-1'', knowledge_base_name = ''Docs'',
                     results = [ex_hit ''z'' (9 / 10)]\<rparr>]\<rparr>)
   \<and> list_all2 (\<lambda>request item. int (length (results item)) \<le> 1)
        (resolve (ex_store [ex_entry ''kb-1'' ''Docs'' (Some 10) (Some (ex_client ''rr''))]) [''kb-1''])
        [\<lparr>knowledge_base_id = ''kb-1'', knowledge_base_name = ''Docs'', results = [ex_hit ''z'' (9 / 10)]\<rparr>]"
proof -
  let ?e = "ex_entry ''kb-1'' ''Docs'' (Some 10) (Some (ex_client ''rr''))"
  let ?req = "ex_request [''kb-1''] None (Some 1)"
  let ?resp = "\<lparr>object = ''list'',
            data = [\<lparr>knowledge_base_id = ''kb-1'', knowledge_base_name = ''Docs'',
                     results = [ex_hit ''z'' (9 / 10)]\<rparr>]\<rparr>"
  have run: "search ex_cfg ex_retrieve ex_rerank_reverse (ex_store [?e]) ?req
    = ([SearchCall ''what is it'' (params ?e),
        RerankCall ''what is it'' (params ?e) [ex_hit ''y'' (2 / 10), ex_hit ''z'' (9 / 10)]],
       Inr ?resp)"
    by code_simp
  have lim: "allowedResults ex_cfg ?req request = 1" for request
    by (simp add: allowedResults_def limitOverride_def ex_request_def ex_cfg_def)
  from search_results_within_bounds [OF run]
  have "list_all2 (\<lambda>request item. int (length (results item)) \<le> 1)
          (resolve (ex_store [?e]) (knowledge_base_ids ?req)) (data ?resp)"
    by (rule list_all2_mono) (auto simp: lim)
  with run show ?thesis by (simp add: ex_request_def)
qed

subsection \<open>C4: not ready, no matching bases\<close>

text \<open>
  Claim C4. When the session is inactive or the replica is empty, \<open>search\<close> fails with
  ``not ready'' and has called no collaborator. Otherwise it does not fail with ``not
  ready''; the bases it works on are the entries of the requested identifiers that the
  replica has, in the order of the request, the other identifiers being dropped; it fails
  with ``no matching bases'' exactly when no identifier resolves, and then it has called no
  collaborator; and a response has one item per resolved base, in that order.
\<close>

theorem search_preconditions:
  "(\<not> isSyncActive s \<or> \<not> hasBases s \<longrightarrow>
        search cfg retrieve rerank s payload = ([], Inl NotReady))
   \<and> (isSyncActive s \<and> hasBases s \<longrightarrow>
        snd (search cfg retrieve rerank s payload) \<noteq> Inl NotReady
      \<and> resolve s (knowledge_base_ids payload) =
          map (\<lambda>i. the (getBase s i)) [i \<leftarrow> knowledge_base_ids payload. getBase s i \<noteq> None]
      \<and> (snd (search cfg retrieve rerank s payload) = Inl NoMatchingBases
           \<longleftrightarrow> (\<forall>i \<in> set (knowledge_base_ids payload). getBase s i = None))
      \<and> ((\<forall>i \<in> set (knowledge_base_ids payload). getBase s i = None) \<longrightarrow>
           fst (search cfg retrieve rerank s payload) = [])
      \<and> (\<forall>resp. snd (search cfg retrieve rerank s payload) = Inr resp \<longrightarrow>
           map knowledge_base_id (data resp)
             = map (\<lambda>e. sid (metadata e)) (resolve s (knowledge_base_ids payload))))"
proof (cases "isSyncActive s \<and> hasBases s")
  case False
  then show ?thesis using search_not_ready [of s cfg retrieve rerank payload] by auto
next
  case True
  let ?r = "search cfg retrieve rerank s payload"
  let ?requests = "resolve s (knowledge_base_ids payload)"
  have a: "snd ?r \<noteq> Inl NotReady"
  proof (cases "?requests = []")
    case True
    with \<open>isSyncActive s \<and> hasBases s\<close> show ?thesis by (simp add: search_no_match)
  next
    case False
    with True search_ready_error [of s payload cfg retrieve rerank NotReady] show ?thesis by auto
  qed
  have b: "snd ?r = Inl NoMatchingBases \<longleftrightarrow> ?requests = []"
  proof (cases "?requests = []")
    case True
    with \<open>isSyncActive s \<and> hasBases s\<close> show ?thesis by (simp add: search_no_match)
  next
    case False
    with True search_ready_error [of s payload cfg retrieve rerank NoMatchingBases] show ?thesis by auto
  qed
  have c: "?requests = [] \<longrightarrow> fst ?r = []"
    using True by (simp add: search_no_match)
  have d: "map knowledge_base_id (data resp) = map (\<lambda>e. sid (metadata e)) ?requests"
    if "snd ?r = Inr resp" for resp
  proof -
    from that have "?r = (fst ?r, Inr resp)" by (metis prod.collapse)
    from search_success [OF this]
    have "list_all2 (\<lambda>request item. snd (search_base cfg retrieve rerank payload request) = Inr item)
            ?requests (data resp)" by simp
    then have "list_all2 (\<lambda>request item. knowledge_base_id item = sid (metadata request)) ?requests (data resp)"
      by (rule list_all2_mono) (use search_base_item in blast)
    then show ?thesis
      by (induction rule: list_all2_induct) simp_all
  qed
  from b have b': "snd ?r = Inl NoMatchingBases
      \<longleftrightarrow> (\<forall>i \<in> set (knowledge_base_ids payload). getBase s i = None)"
    by (simp only: resolve_empty_iff)
  from c have c': "(\<forall>i \<in> set (knowledge_base_ids payload). getBase s i = None) \<longrightarrow> fst ?r = []"
    by (simp only: resolve_empty_iff)
  from True a b' c' d resolve_filter [of s "knowledge_base_ids payload"] show ?thesis
    by blast
qed

text \<open>An inactive store; an active store asked for a base it does not have; the same store
  asked for three bases of which it has one.\<close>

theorem search_preconditions_witness:
  "search ex_cfg ex_retrieve ex_rerank_reverse initial_store (ex_request [''kb-1''] None None) = ([], Inl NotReady)
   \<and> search ex_cfg ex_retrieve ex_rerank_reverse (ex_store [ex_entry ''kb-1'' ''Docs'' (Some 10) None])
        (ex_request [''missing''] None None) = ([], Inl NoMatchingBases)
   \<and> resolve (ex_store [ex_entry ''kb-1'' ''Docs'' (Some 10) None]) [''missing'', ''kb-1'', ''gone'']
        = [ex_entry ''kb-1'' ''Docs'' (Some 10) None]
   \<and> snd (search ex_cfg ex_retrieve ex_rerank_reverse (ex_store [ex_entry ''kb-1'' ''Docs'' (Some 10) None])
        (ex_request [''missing'', ''kb-1'', ''gone''] None None)) \<noteq> Inl NoMatchingBases"
proof -
  let ?s = "ex_store [ex_entry ''kb-1'' ''Docs'' (Some 10) None]"
  have ready: "isSyncActive ?s" "hasBases ?s" "\<not> isSyncActive initial_store"
    by (simp_all add: ex_store_def handleSyncPayload_def startSync_def initial_store_def Let_def
        isSyncActive_def hasBases_def)
  have look: "getBase ?s ''missing'' = None" "getBase ?s ''gone'' = None"
    "getBase ?s ''kb-1'' = Some (ex_entry ''kb-1'' ''Docs'' (Some 10) None)"
    by (simp_all add: ex_store_def handleSyncPayload_def startSync_def initial_store_def Let_def
        getBase_def map_get_def ex_entry_def)
  from search_preconditions [of initial_store ex_cfg ex_retrieve ex_rerank_reverse "ex_request [''kb-1''] None None"] ready
  have a: "search ex_cfg ex_retrieve ex_rerank_reverse initial_store (ex_request [''kb-1''] None None) = ([], Inl NotReady)"
    by blast
  from search_preconditions [of ?s ex_cfg ex_retrieve ex_rerank_reverse "ex_request [''missing''] None None"] ready look
  have "snd (search ex_cfg ex_retrieve ex_rerank_reverse ?s (ex_request [''missing''] None None)) = Inl NoMatchingBases"
    "fst (search ex_cfg ex_retrieve ex_rerank_reverse ?s (ex_request [''missing''] None None)) = []"
    by (simp_all add: ex_request_def)
  then have b: "search ex_cfg ex_retrieve ex_rerank_reverse ?s (ex_request [''missing''] None None) = ([], Inl NoMatchingBases)"
    by (simp add: prod_eq_iff)
  from search_preconditions [of ?s ex_cfg ex_retrieve ex_rerank_reverse "ex_request [''missing'', ''kb-1'', ''gone''] None None"]
    ready look
  have c: "resolve ?s [''missing'', ''kb-1'', ''gone''] = [ex_entry ''kb-1'' ''Docs'' (Some 10) None]"
    "snd (search ex_cfg ex_retrieve ex_rerank_reverse ?s (ex_request [''missing'', ''kb-1'', ''gone''] None None))
       \<noteq> Inl NoMatchingBases"
    by (simp_all add: ex_request_def)
  from a b c show ?thesis by simp
qed

subsection \<open>C5: effective query, limit and threshold\<close>

text \<open>
  Claim C5. For every request whose \<open>top_k\<close>, when present, is not zero (the schema of
  the route admits positive values only) and every base: the query text used is the
  rewritten query when it is present and not blank, else the original query; the limit is
  the request's \<open>top_k\<close>, capped at the global maximum, when present, else the base's
  document count, else the default; the threshold is the request's when present, else the
  base's, else the default; and these are the values the pipeline of the base retrieves,
  filters and truncates with.
\<close>

theorem search_effective_parameters:
  assumes "top_k payload \<noteq> Some 0"
  shows "searchQuery payload = spec_effective_query payload
       \<and> allowedResults cfg payload request = spec_effective_limit cfg payload request
       \<and> effective_threshold cfg payload request = spec_effective_threshold cfg payload request
       \<and> (\<forall>item. snd (search_base cfg retrieve rerank payload request) = Inr item \<longrightarrow>
            (\<exists>rag ranked.
               retrieve (spec_effective_query payload) (params request) = Inr rag
             \<and> (ranked = [r \<leftarrow> rag. spec_effective_threshold cfg payload request \<le> score r]
                \<or> rerank (spec_effective_query payload) (params request)
                     [r \<leftarrow> rag. spec_effective_threshold cfg payload request \<le> score r] = Inr ranked)
             \<and> results item = slice0 ranked (spec_effective_limit cfg payload request)))"
proof -
  note lim = allowedResults_spec [OF assms, where request = request]
  have "\<exists>rag ranked.
               retrieve (spec_effective_query payload) (params request) = Inr rag
             \<and> (ranked = [r \<leftarrow> rag. spec_effective_threshold cfg payload request \<le> score r]
                \<or> rerank (spec_effective_query payload) (params request)
                     [r \<leftarrow> rag. spec_effective_threshold cfg payload request \<le> score r] = Inr ranked)
             \<and> results item = slice0 ranked (spec_effective_limit cfg payload request)"
    if "snd (search_base cfg retrieve rerank payload request) = Inr item" for item
  proof -
    from search_base_item [OF that] obtain rag ranked where
      "retrieve (searchQuery payload) (params request) = Inr rag"
      "if filtered_by_threshold cfg payload request rag \<noteq> [] \<and> has_rerank_model (params request)
       then rerank (searchQuery payload) (params request) (filtered_by_threshold cfg payload request rag) = Inr ranked
       else ranked = filtered_by_threshold cfg payload request rag"
      "results item = slice0 ranked (allowedResults cfg payload request)"
      by blast
    then show ?thesis
      unfolding lim searchQuery_spec filtered_by_threshold_def effective_threshold_spec
      by (intro exI [of _ rag] exI [of _ ranked]) (auto split: if_splits)
  qed
  with lim show ?thesis
    by (simp add: searchQuery_spec effective_threshold_spec)
qed

text \<open>A blank rewrite and \<open>top_k = 40\<close>, above the maximum of 30; \<open>top_k = 3\<close>; a rewrite
  with text and no \<open>top_k\<close>, on a base with document count 10 and on one with none.\<close>

theorem search_effective_parameters_witness:
  "top_k (ex_request [''kb-1''] (Some ''  '') (Some 40)) \<noteq> Some 0
   \<and> searchQuery (ex_request [''kb-1''] (Some ''  '') (Some 40)) = ''what is it''
   \<and> searchQuery (ex_request [''kb-1''] (Some '' what? '') None) = '' what? ''
   \<and> allowedResults ex_cfg (ex_request [''kb-1''] (Some ''  '') (Some 40)) (ex_entry ''kb-1'' ''Docs'' (Some 10) None) = 30
   \<and> allowedResults ex_cfg (ex_request [''kb-1''] None (Some 3)) (ex_entry ''kb-1'' ''Docs'' (Some 10) None) = 3
   \<and> allowedResults ex_cfg (ex_request [''kb-1''] (Some '' what? '') None) (ex_entry ''kb-1'' ''Docs'' (Some 10) None) = 10
   \<and> allowedResults ex_cfg (ex_request [''kb-1''] (Some '' what? '') None) (ex_entry ''kb-1'' ''Docs'' None None) = 6
   \<and> effective_threshold ex_cfg (ex_request [''kb-1''] (Some ''  '') (Some 40)) (ex_entry ''kb-1'' ''Docs'' (Some 10) None) = 1 / 10"
proof -
  let ?r1 = "ex_request [''kb-1''] (Some ''  '') (Some 40)"
  let ?r2 = "ex_request [''kb-1''] (Some '' what? '') None"
  let ?r3 = "ex_request [''kb-1''] None (Some 3)"
  let ?e = "ex_entry ''kb-1'' ''Docs'' (Some 10) None"
  have v1: "top_k ?r1 \<noteq> Some 0" and v2: "top_k ?r2 \<noteq> Some 0" and v3: "top_k ?r3 \<noteq> Some 0"
    by (simp_all add: ex_request_def)
  note defs = spec_effective_query_def spec_effective_limit_def spec_effective_threshold_def
        ex_request_def ex_entry_def ex_cfg_def is_white_space_def
  from search_effective_parameters [OF v1, where request = ?e and cfg = ex_cfg
      and retrieve = ex_retrieve and rerank = ex_rerank_reverse]
  have a: "searchQuery ?r1 = ''what is it''"
    "allowedResults ex_cfg ?r1 ?e = 30"
    "effective_threshold ex_cfg ?r1 ?e = 1 / 10"
    by (simp_all add: defs)
  from search_effective_parameters [OF v2, where request = ?e and cfg = ex_cfg
      and retrieve = ex_retrieve and rerank = ex_rerank_reverse]
  have b: "searchQuery ?r2 = '' what? ''"
    "allowedResults ex_cfg ?r2 ?e = 10"
    by (simp_all add: defs)
  from search_effective_parameters [OF v2, where request = "ex_entry ''kb-1'' ''Docs'' None None" and cfg = ex_cfg
      and retrieve = ex_retrieve and rerank = ex_rerank_reverse]
  have c: "allowedResults ex_cfg ?r2 (ex_entry ''kb-1'' ''Docs'' None None) = 6"
    by (simp_all add: defs)
  from search_effective_parameters [OF v3, where request = ?e and cfg = ex_cfg
      and retrieve = ex_retrieve and rerank = ex_rerank_reverse]
  have d: "allowedResults ex_cfg ?r3 ?e = 3"
    by (simp_all add: defs)
  from v1 a b c d show ?thesis by (intro conjI)
qed

subsection \<open>C6: when the reranker is called\<close>

text \<open>
  Claim C6, as amended. For a base whose retrieval returned a sequence, the reranker is
  called if and only if the filtered sequence is not empty and the params hold a rerank
  client whose model is not the empty string. In that case the calls for the base are the
  retrieval and one rerank call on the filtered sequence, and when the reranker returns, its
  output, truncated to the limit, is the result; otherwise retrieval is the only call and
  the result is the filtered sequence truncated. In a whole search no rerank call has an
  empty input, and the calls of a search that succeeds are the calls of its resolved bases
  in order.
\<close>

theorem rerank_invoked_iff:
  assumes "retrieve (searchQuery payload) (params request) = Inr rag"
  shows "(list_ex is_rerank_call (fst (search_base cfg retrieve rerank payload request))
            \<longleftrightarrow> filtered_by_threshold cfg payload request rag \<noteq> []
                \<and> (\<exists>c. rerankApiClient (params request) = Some c \<and> client_model c \<noteq> []))
       \<and> (filtered_by_threshold cfg payload request rag \<noteq> []
            \<and> (\<exists>c. rerankApiClient (params request) = Some c \<and> client_model c \<noteq> []) \<longrightarrow>
              fst (search_base cfg retrieve rerank payload request) =
                [SearchCall (searchQuery payload) (params request),
                 RerankCall (searchQuery payload) (params request) (filtered_by_threshold cfg payload request rag)]
            \<and> (\<forall>ranked. rerank (searchQuery payload) (params request) (filtered_by_threshold cfg payload request rag) = Inr ranked \<longrightarrow>
                  snd (search_base cfg retrieve rerank payload request) =
                    Inr \<lparr>knowledge_base_id = sid (metadata request), knowledge_base_name = name (metadata request),
                         results = slice0 ranked (allowedResults cfg payload request)\<rparr>))
       \<and> (\<not> (filtered_by_threshold cfg payload request rag \<noteq> []
               \<and> (\<exists>c. rerankApiClient (params request) = Some c \<and> client_model c \<noteq> [])) \<longrightarrow>
              search_base cfg retrieve rerank payload request =
                ([SearchCall (searchQuery payload) (params request)],
                 Inr \<lparr>knowledge_base_id = sid (metadata request), knowledge_base_name = name (metadata request),
                      results = slice0 (filtered_by_threshold cfg payload request rag) (allowedResults cfg payload request)\<rparr>))
       \<and> (\<forall>c \<in> set (fst (search cfg retrieve rerank s payload)). rerank_input c \<noteq> Some [])
       \<and> (\<forall>calls resp. search cfg retrieve rerank s payload = (calls, Inr resp) \<longrightarrow>
             calls = concat (map (\<lambda>request. fst (search_base cfg retrieve rerank payload request))
                              (resolve s (knowledge_base_ids payload))))"
proof -
  let ?cond = "filtered_by_threshold cfg payload request rag \<noteq> []
                \<and> (\<exists>c. rerankApiClient (params request) = Some c \<and> client_model c \<noteq> [])"
  have no: "search_base cfg retrieve rerank payload request =
                ([SearchCall (searchQuery payload) (params request)],
                 Inr \<lparr>knowledge_base_id = sid (metadata request), knowledge_base_name = name (metadata request),
                      results = slice0 (filtered_by_threshold cfg payload request rag) (allowedResults cfg payload request)\<rparr>)"
    if "\<not> ?cond"
    using search_base_no_rerank [where retrieve = retrieve and rerank = rerank, OF assms] that
    by (simp add: has_rerank_model_iff)
  have yes: "fst (search_base cfg retrieve rerank payload request) =
                [SearchCall (searchQuery payload) (params request),
                 RerankCall (searchQuery payload) (params request) (filtered_by_threshold cfg payload request rag)]"
    if c: "?cond"
  proof (cases "rerank (searchQuery payload) (params request) (filtered_by_threshold cfg payload request rag)")
    case (Inl m)
    from c have "filtered_by_threshold cfg payload request rag \<noteq> []" "has_rerank_model (params request)"
      by (simp_all add: has_rerank_model_iff)
    from search_base_rerank_fails [where retrieve = retrieve and rerank = rerank, OF assms this Inl]
    show ?thesis by simp
  next
    case (Inr ranked)
    from c have "filtered_by_threshold cfg payload request rag \<noteq> []" "has_rerank_model (params request)"
      by (simp_all add: has_rerank_model_iff)
    from search_base_rerank_ok [where retrieve = retrieve and rerank = rerank, OF assms this Inr]
    show ?thesis by simp
  qed
  have out: "snd (search_base cfg retrieve rerank payload request) =
                    Inr \<lparr>knowledge_base_id = sid (metadata request), knowledge_base_name = name (metadata request),
                         results = slice0 ranked (allowedResults cfg payload request)\<rparr>"
    if c: "?cond"
      and r: "rerank (searchQuery payload) (params request) (filtered_by_threshold cfg payload request rag) = Inr ranked"
    for ranked
  proof -
    from c have "filtered_by_threshold cfg payload request rag \<noteq> []" "has_rerank_model (params request)"
      by (simp_all add: has_rerank_model_iff)
    from search_base_rerank_ok [where retrieve = retrieve and rerank = rerank, OF assms this r]
    show ?thesis by simp
  qed
  have iff: "list_ex is_rerank_call (fst (search_base cfg retrieve rerank payload request)) \<longleftrightarrow> ?cond"
  proof (cases ?cond)
    case True
    with yes show ?thesis by simp
  next
    case False
    with no show ?thesis by simp
  qed
  have inputs: "\<forall>c \<in> set (fst (search cfg retrieve rerank s payload)). rerank_input c \<noteq> Some []"
    using search_calls [of cfg retrieve rerank s payload] search_base_rerank_input
    by blast
  have trace: "\<forall>calls resp. search cfg retrieve rerank s payload = (calls, Inr resp) \<longrightarrow>
             calls = concat (map (\<lambda>request. fst (search_base cfg retrieve rerank payload request))
                              (resolve s (knowledge_base_ids payload)))"
    using search_success by blast
  from iff yes out no inputs trace show ?thesis by blast
qed

text \<open>A rerank client is present, with the empty string as its model, and two results pass
  the threshold: retrieval is the only call, and the filtered results are returned.\<close>

theorem rerank_empty_model_counterexample:
  "rerankApiClient (params (ex_entry ''kb-1'' ''Docs'' (Some 10) (Some (ex_client '''')))) = Some (ex_client '''')
   \<and> ex_retrieve (searchQuery (ex_request [''kb-1''] None None))
        (params (ex_entry ''kb-1'' ''Docs'' (Some 10) (Some (ex_client ''''))))
       = Inr [ex_hit ''x'' (5 / 100), ex_hit ''y'' (2 / 10), ex_hit ''z'' (9 / 10)]
   \<and> filtered_by_threshold ex_cfg (ex_request [''kb-1''] None None)
        (ex_entry ''kb-1'' ''Docs'' (Some 10) (Some (ex_client '''')))
        [ex_hit ''x'' (5 / 100), ex_hit ''y'' (2 / 10), ex_hit ''z'' (9 / 10)]
       = [ex_hit ''y'' (2 / 10), ex_hit ''z'' (9 / 10)]
   \<and> search_base ex_cfg ex_retrieve ex_rerank_reverse (ex_request [''kb-1''] None None)
        (ex_entry ''kb-1'' ''Docs'' (Some 10) (Some (ex_client '''')))
       = ([SearchCall ''what is it'' (params (ex_entry ''kb-1'' ''Docs'' (Some 10) (Some (ex_client ''''))))],
          Inr \<lparr>knowledge_base_id = ''kb-1'', knowledge_base_name = ''Docs'',
               results = [ex_hit ''y'' (2 / 10), ex_hit ''z'' (9 / 10)]\<rparr>)"
  by code_simp

text \<open>The same base with the rerank model \<open>rr\<close>, whose results come back reversed, and
  with no rerank client.\<close>

theorem rerank_invoked_iff_witness:
  "list_ex is_rerank_call
     (fst (search_base ex_cfg ex_retrieve ex_rerank_reverse (ex_request [''kb-1''] None None)
             (ex_entry ''kb-1'' ''Docs'' (Some 10) (Some (ex_client ''rr'')))))
   \<and> snd (search_base ex_cfg ex_retrieve ex_rerank_reverse (ex_request [''kb-1''] None None)
             (ex_entry ''kb-1'' ''Docs'' (Some 10) (Some (ex_client ''rr''))))
       = Inr \<lparr>knowledge_base_id = ''kb-1'', knowledge_base_name = ''Docs'',
              results = [ex_hit ''z'' (9 / 10), ex_hit ''y'' (2 / 10)]\<rparr>
   \<and> search_base ex_cfg ex_retrieve ex_rerank_reverse (ex_request [''kb-1''] None None)
        (ex_entry ''kb-1'' ''Docs'' (Some 10) None)
       = ([SearchCall ''what is it'' (params (ex_entry ''kb-1'' ''Docs'' (Some 10) None))],
          Inr \<lparr>knowledge_base_id = ''kb-1'', knowledge_base_name = ''Docs'',
               results = [ex_hit ''y'' (2 / 10), ex_hit ''z'' (9 / 10)]\<rparr>)"
proof -
  let ?req = "ex_request [''kb-1''] None None"
  let ?e = "ex_entry ''kb-1'' ''Docs'' (Some 10) (Some (ex_client ''rr''))"
  let ?n = "ex_entry ''kb-1'' ''Docs'' (Some 10) None"
  let ?rag = "[ex_hit ''x'' (5 / 100), ex_hit ''y'' (2 / 10), ex_hit ''z'' (9 / 10)]"
  have r: "ex_retrieve (searchQuery ?req) (params ?e) = Inr ?rag"
      "ex_retrieve (searchQuery ?req) (params ?n) = Inr ?rag"
    by (simp_all add: ex_retrieve_def)
  have f: "filtered_by_threshold ex_cfg ?req ?e ?rag = [ex_hit ''y'' (2 / 10), ex_hit ''z'' (9 / 10)]"
      "filtered_by_threshold ex_cfg ?req ?n ?rag = [ex_hit ''y'' (2 / 10), ex_hit ''z'' (9 / 10)]"
    by code_simp+
  have c: "rerankApiClient (params ?e) = Some (ex_client ''rr'')" "client_model (ex_client ''rr'') \<noteq> []"
      "rerankApiClient (params ?n) = None"
    by (simp_all add: ex_entry_def ex_client_def)
  have rr: "ex_rerank_reverse (searchQuery ?req) (params ?e) [ex_hit ''y'' (2 / 10), ex_hit ''z'' (9 / 10)]
      = Inr [ex_hit ''z'' (9 / 10), ex_hit ''y'' (2 / 10)]"
    by (simp add: ex_rerank_reverse_def)
  have l: "slice0 [ex_hit ''z'' (9 / 10), ex_hit ''y'' (2 / 10)] (allowedResults ex_cfg ?req ?e)
      = [ex_hit ''z'' (9 / 10), ex_hit ''y'' (2 / 10)]"
    "slice0 [ex_hit ''y'' (2 / 10), ex_hit ''z'' (9 / 10)] (allowedResults ex_cfg ?req ?n)
      = [ex_hit ''y'' (2 / 10), ex_hit ''z'' (9 / 10)]"
    by code_simp+
  have m: "sid (metadata ?e) = ''kb-1''" "name (metadata ?e) = ''Docs''"
    "sid (metadata ?n) = ''kb-1''" "name (metadata ?n) = ''Docs''" "searchQuery ?req = ''what is it''"
    by (simp_all add: ex_entry_def searchQuery_def ex_request_def)
  from rerank_invoked_iff [where retrieve = ex_retrieve and rerank = ex_rerank_reverse and cfg = ex_cfg
      and s = initial_store, OF r(1)] f(1) c rr l(1) m
  have a: "list_ex is_rerank_call (fst (search_base ex_cfg ex_retrieve ex_rerank_reverse ?req ?e))"
    "snd (search_base ex_cfg ex_retrieve ex_rerank_reverse ?req ?e)
       = Inr \<lparr>knowledge_base_id = ''kb-1'', knowledge_base_name = ''Docs'',
              results = [ex_hit ''z'' (9 / 10), ex_hit ''y'' (2 / 10)]\<rparr>"
    by simp_all
  from rerank_invoked_iff [where retrieve = ex_retrieve and rerank = ex_rerank_reverse and cfg = ex_cfg
      and s = initial_store, OF r(2)] f(2) c l(2) m
  have b: "search_base ex_cfg ex_retrieve ex_rerank_reverse ?req ?n
       = ([SearchCall ''what is it'' (params ?n)],
          Inr \<lparr>knowledge_base_id = ''kb-1'', knowledge_base_name = ''Docs'',
               results = [ex_hit ''y'' (2 / 10), ex_hit ''z'' (9 / 10)]\<rparr>)"
    by simp
  from a b show ?thesis by simp
qed

subsection \<open>C7: stopping clears the replica\<close>

text \<open>
  Claim C7. In every state the replica can reach, the invariant holds (an inactive session
  has no bases and no time of last sync), and after \<open>stopSync\<close> the session is inactive,
  \<open>hasBases\<close> is false and \<open>getLastSyncedAt\<close> is null. The invariant holds at the start,
  and \<open>startSync\<close>, \<open>stopSync\<close> and \<open>handleSyncPayload\<close> each preserve it.
\<close>

theorem stopSync_clears_reachable:
  "(reachable s \<longrightarrow>
        store_inv s
      \<and> \<not> isSyncActive (snd (stopSync mainWindow s))
      \<and> \<not> hasBases (snd (stopSync mainWindow s))
      \<and> getLastSyncedAt (snd (stopSync mainWindow s)) = None)
   \<and> store_inv initial_store
   \<and> (store_inv s \<longrightarrow>
        store_inv (snd (startSync mainWindow s))
      \<and> store_inv (snd (stopSync mainWindow s))
      \<and> store_inv (snd (handleSyncPayload payload now s)))"
proof -
  have "store_inv s
      \<and> \<not> isSyncActive (snd (stopSync mainWindow s))
      \<and> \<not> hasBases (snd (stopSync mainWindow s))
      \<and> getLastSyncedAt (snd (stopSync mainWindow s)) = None" if "reachable s"
  proof -
    from reachable_inv [OF that] have i: "store_inv s" .
    from stopSync_cleared [OF i] i show ?thesis
      by (simp add: isSyncActive_def hasBases_def getLastSyncedAt_def)
  qed
  with store_inv_initial store_inv_startSync store_inv_stopSync store_inv_handleSyncPayload
  show ?thesis by blast
qed

text \<open>A store that was started and has accepted one base, stopped once and stopped again.\<close>

theorem stopSync_clears_reachable_witness:
  "reachable (ex_store [ex_entry ''kb-1'' ''Docs'' (Some 10) None])
   \<and> isSyncActive (ex_store [ex_entry ''kb-1'' ''Docs'' (Some 10) None])
   \<and> hasBases (ex_store [ex_entry ''kb-1'' ''Docs'' (Some 10) None])
   \<and> getLastSyncedAt (ex_store [ex_entry ''kb-1'' ''Docs'' (Some 10) None]) = Some 5
   \<and> \<not> isSyncActive (snd (stopSync True (ex_store [ex_entry ''kb-1'' ''Docs'' (Some 10) None])))
   \<and> \<not> hasBases (snd (stopSync True (ex_store [ex_entry ''kb-1'' ''Docs'' (Some 10) None])))
   \<and> getLastSyncedAt (snd (stopSync True (ex_store [ex_entry ''kb-1'' ''Docs'' (Some 10) None]))) = None
   \<and> store_inv (snd (stopSync True (snd (stopSync True (ex_store [ex_entry ''kb-1'' ''Docs'' (Some 10) None])))))"
proof -
  let ?s = "ex_store [ex_entry ''kb-1'' ''Docs'' (Some 10) None]"
  have r: "reachable ?s"
    unfolding ex_store_def by (intro reach_sync reach_start reach_init)
  have before: "isSyncActive ?s" "hasBases ?s" "getLastSyncedAt ?s = Some 5"
    by (simp_all add: ex_store_def handleSyncPayload_def startSync_def initial_store_def Let_def
        isSyncActive_def hasBases_def getLastSyncedAt_def)
  from stopSync_clears_reachable [of ?s True] r
  have after: "store_inv ?s" "\<not> isSyncActive (snd (stopSync True ?s))" "\<not> hasBases (snd (stopSync True ?s))"
    "getLastSyncedAt (snd (stopSync True ?s)) = None"
    by simp_all
  from stopSync_clears_reachable [of "snd (stopSync True ?s)" True] stopSync_clears_reachable [of ?s True] after(1)
  have "store_inv (snd (stopSync True (snd (stopSync True ?s))))"
    by blast
  with r before after show ?thesis by simp
qed

subsection \<open>C8: the fingerprint\<close>

text \<open>
  Claim C8, as amended. The empty identifiers of the configured allow-list are dropped
  first, so that an allow-list of empty identifiers only counts as none. The fingerprint
  that \<open>computeSignature\<close> returns is then the one the specification words, over the
  identifiers that remain: these sorted and joined by commas, or \<open>ALL\<close> when none remains,
  then \<open>#\<close>, then \<open>id:updatedAt:version:itemCount\<close> of each selected base in order, joined
  by \<open>|\<close>; for an allow-list without empty identifiers this is the fingerprint over the
  allow-list itself. The sort used returns its input sorted. When no base is selected the
  fingerprint is the selection signature followed by \<open>#EMPTY\<close>, and when one is it is
  not. A number below \<open>2^53\<close> in absolute value is printed in plain decimal. With the
  allow-list \<open>a, c\<close> over bases \<open>a, b, c\<close> the fingerprint starts with \<open>a,c#\<close> and the
  snapshot holds \<open>a\<close> and \<open>c\<close> only.
\<close>

theorem computeSignature_fingerprint:
  "(apiServer_knowledgeBaseIds state = None \<longrightarrow>
        computeSignature state = spec_fingerprint [] (state_bases state))
   \<and> (apiServer_knowledgeBaseIds state = Some allow \<longrightarrow>
        computeSignature state = spec_fingerprint [i \<leftarrow> allow. i \<noteq> []] (state_bases state))
   \<and> (apiServer_knowledgeBaseIds state = Some allow \<and> (\<forall>i \<in> set allow. i \<noteq> []) \<longrightarrow>
        computeSignature state = spec_fingerprint allow (state_bases state))
   \<and> sorted (js_sort ids) \<and> mset (js_sort ids) = mset ids
   \<and> (filterBases (state_bases state) (getSelectedKnowledgeBaseIds state) = [] \<longrightarrow>
        computeSignature state = spec_selection_signature (getSelectedKnowledgeBaseIds state) @ ''#EMPTY'')
   \<and> (filterBases (state_bases state) (getSelectedKnowledgeBaseIds state) \<noteq> [] \<longrightarrow>
        computeSignature state \<noteq> spec_selection_signature (getSelectedKnowledgeBaseIds state) @ ''#EMPTY'')
   \<and> (\<bar>n\<bar> < 9007199254740992 \<longrightarrow>
        number_to_string n = (if n < 0 then CHR ''-'' # decimal (- n) else decimal n))
   \<and> (map kb_id (state_bases state) = [''a'', ''b'', ''c'']
        \<and> apiServer_knowledgeBaseIds state = Some [''a'', ''c''] \<longrightarrow>
        take 4 (computeSignature state) = ''a,c#''
      \<and> map (\<lambda>e. sid (metadata e)) (buildPayload gp state) = [''a'', ''c''])"
proof -
  let ?sel = "getSelectedKnowledgeBaseIds state"
  let ?bs = "state_bases state"
  have spec: "computeSignature state = spec_fingerprint ?sel ?bs"
    by (rule computeSignature_spec)
  have n: "apiServer_knowledgeBaseIds state = None \<longrightarrow> computeSignature state = spec_fingerprint [] ?bs"
    using getSelected_None [of state] spec by auto
  have s: "apiServer_knowledgeBaseIds state = Some allow \<longrightarrow>
        computeSignature state = spec_fingerprint [i \<leftarrow> allow. i \<noteq> []] ?bs"
    using getSelected_Some [of state allow] spec by auto
  have cl: "apiServer_knowledgeBaseIds state = Some allow \<and> (\<forall>i \<in> set allow. i \<noteq> []) \<longrightarrow>
        computeSignature state = spec_fingerprint allow ?bs"
    using getSelected_clean [of state allow] spec by auto
  have srt: "sorted (js_sort ids)" "mset (js_sort ids) = mset ids"
    by (simp_all add: js_sort_sort)
  have sig: "computeSignature state = spec_selection_signature ?sel @ ''#'' @
      (if filterBases ?bs ?sel = [] then ''EMPTY'' else join ''|'' (map signature_entry (filterBases ?bs ?sel)))"
    by (simp add: computeSignature_def spec_selection_signature_def js_sort_sort Let_def)
  have e1: "filterBases ?bs ?sel = [] \<longrightarrow> computeSignature state = spec_selection_signature ?sel @ ''#EMPTY''"
    by (simp add: sig)
  have e2: "filterBases ?bs ?sel \<noteq> [] \<longrightarrow> computeSignature state \<noteq> spec_selection_signature ?sel @ ''#EMPTY''"
    using entries_not_EMPTY [of "filterBases ?bs ?sel"] by (simp add: sig)
  have num: "\<bar>n\<bar> < 9007199254740992 \<longrightarrow>
        number_to_string n = (if n < 0 then CHR ''-'' # decimal (- n) else decimal n)"
    using number_to_string_safe [of n] by blast
  have sc: "take 4 (computeSignature state) = ''a,c#''
      \<and> map (\<lambda>e. sid (metadata e)) (buildPayload gp state) = [''a'', ''c'']"
    if ids: "map kb_id ?bs = [''a'', ''b'', ''c'']" and al: "apiServer_knowledgeBaseIds state = Some [''a'', ''c'']"
  proof -
    from al have sel: "?sel = [''a'', ''c'']"
      by (simp add: getSelectedKnowledgeBaseIds_def)
    from ids obtain b1 b2 b3 where bs: "?bs = [b1, b2, b3]"
      and k: "kb_id b1 = ''a''" "kb_id b2 = ''b''" "kb_id b3 = ''c''"
      by (auto simp: map_eq_Cons_conv)
    have f: "filterBases ?bs [''a'', ''c''] = [b1, b3]"
      by (simp add: filterBases_def bs k)
    have j: "join '','' [''a'', ''c''] = ''a,c''"
      by simp
    have "computeSignature state = ''a,c#'' @ join ''|'' (map signature_entry [b1, b3])"
      by (simp add: computeSignature_def Let_def sel f sort_a_c j del: join.simps)
    moreover have "map (\<lambda>e. sid (metadata e)) (buildPayload gp state) = [''a'', ''c'']"
      by (simp add: buildPayload_def Let_def sel f toSummary_def k)
    ultimately show ?thesis by simp
  qed
  then have sc': "map kb_id ?bs = [''a'', ''b'', ''c'']
        \<and> apiServer_knowledgeBaseIds state = Some [''a'', ''c''] \<longrightarrow>
        take 4 (computeSignature state) = ''a,c#''
      \<and> map (\<lambda>e. sid (metadata e)) (buildPayload gp state) = [''a'', ''c'']"
    by (intro impI) (elim conjE)
  from n s cl srt e1 e2 num sc' show ?thesis
    by - (intro conjI, assumption+)
qed

text \<open>
  The allow-list holds the empty identifier only. Worded over the allow-list as it is, the
  fingerprint would be the empty selection signature followed by \<open>#EMPTY\<close>, and no base
  would be pushed; the code answers \<open>ALL\<close> with both bases and pushes both.
\<close>

theorem computeSignature_empty_identifier:
  "apiServer_knowledgeBaseIds (ex_state [''a'', ''b''] (Some [''''])) = Some ['''']
   \<and> computeSignature (ex_state [''a'', ''b''] (Some [''''])) = ''ALL#a:1234:2:3|b:1234:2:3''
   \<and> spec_fingerprint [''''] (state_bases (ex_state [''a'', ''b''] (Some ['''']))) = ''#EMPTY''
   \<and> computeSignature (ex_state [''a'', ''b''] (Some ['''']))
       \<noteq> spec_fingerprint [''''] (state_bases (ex_state [''a'', ''b''] (Some [''''])))
   \<and> map sid (map metadata (buildPayload ex_getParams (ex_state [''a'', ''b''] (Some [''''])))) = [''a'', ''b'']"
  by code_simp

text \<open>The scenario on concrete bases; an allow-list with an empty identifier in it; no
  allow-list; an allow-list that selects nothing.\<close>

theorem computeSignature_fingerprint_witness:
  "computeSignature (ex_state [''a'', ''b'', ''c''] (Some [''a'', ''c''])) = ''a,c#a:1234:2:3|c:1234:2:3''
   \<and> take 4 (computeSignature (ex_state [''a'', ''b'', ''c''] (Some [''a'', ''c'']))) = ''a,c#''
   \<and> map (\<lambda>e. sid (metadata e)) (buildPayload ex_getParams (ex_state [''a'', ''b'', ''c''] (Some [''a'', ''c'']))) = [''a'', ''c'']
   \<and> computeSignature (ex_state [''a'', ''b'', ''c''] (Some [''c'', '''', ''a''])) = ''a,c#a:1234:2:3|c:1234:2:3''
   \<and> computeSignature (ex_state [''a'', ''b''] None) = ''ALL#a:1234:2:3|b:1234:2:3''
   \<and> computeSignature (ex_state [''a'', ''b'', ''c''] (Some [''z''])) = ''z#EMPTY''
   \<and> computeSignature (ex_state [''a'', ''b'', ''c''] (Some [''a'', ''c''])) \<noteq> ''a,c#EMPTY''
   \<and> sorted (js_sort [''b'', ''a'', ''ab''])
   \<and> number_to_string 1700000000123 = decimal 1700000000123"
proof -
  let ?s = "ex_state [''a'', ''b'', ''c''] (Some [''a'', ''c''])"
  let ?m = "ex_state [''a'', ''b'', ''c''] (Some [''c'', '''', ''a''])"
  let ?n = "ex_state [''a'', ''b''] None"
  let ?z = "ex_state [''a'', ''b'', ''c''] (Some [''z''])"
  note at_s = computeSignature_fingerprint
    [where state = ?s and ids = "[''b'', ''a'', ''ab'']" and allow = "[''a'', ''c'']" and gp = ex_getParams
      and n = 1700000000123]
  note at_m = computeSignature_fingerprint
    [where state = ?m and ids = "[]" and allow = "[''c'', '''', ''a'']" and gp = ex_getParams and n = 0]
  note at_n = computeSignature_fingerprint
    [where state = ?n and ids = "[]" and allow = "[]" and gp = ex_getParams and n = 0]
  note at_z = computeSignature_fingerprint
    [where state = ?z and ids = "[]" and allow = "[''z'']" and gp = ex_getParams and n = 0]
  have ids: "map kb_id (state_bases ?s) = [''a'', ''b'', ''c'']"
    and al: "apiServer_knowledgeBaseIds ?s = Some [''a'', ''c'']"
    and clean: "\<forall>i \<in> set [''a'', ''c'']. i \<noteq> []"
    and alm: "apiServer_knowledgeBaseIds ?m = Some [''c'', '''', ''a'']"
    and aln: "apiServer_knowledgeBaseIds ?n = None"
    by (simp_all add: ex_state_def state_bases_def ex_base_def)
  have fp: "spec_fingerprint [''a'', ''c''] (state_bases ?s) = ''a,c#a:1234:2:3|c:1234:2:3''"
    and fpm: "spec_fingerprint [i \<leftarrow> [''c'', '''', ''a'']. i \<noteq> []] (state_bases ?m) = ''a,c#a:1234:2:3|c:1234:2:3''"
    and fpn: "spec_fingerprint [] (state_bases ?n) = ''ALL#a:1234:2:3|b:1234:2:3''"
    by code_simp+
  have none: "filterBases (state_bases ?z) (getSelectedKnowledgeBaseIds ?z) = []"
    and sel: "spec_selection_signature (getSelectedKnowledgeBaseIds ?z) = ''z''"
    by code_simp+
  from at_s [THEN conjunct2, THEN conjunct2, THEN conjunct1] al clean
  have "computeSignature ?s = spec_fingerprint [''a'', ''c''] (state_bases ?s)"
    by blast
  then have a: "computeSignature ?s = ''a,c#a:1234:2:3|c:1234:2:3''"
    by (simp only: fp)
  from at_s [THEN conjunct2, THEN conjunct2, THEN conjunct2, THEN conjunct2, THEN conjunct2,
      THEN conjunct2, THEN conjunct2, THEN conjunct2] ids al
  have b: "take 4 (computeSignature ?s) = ''a,c#''"
    "map (\<lambda>e. sid (metadata e)) (buildPayload ex_getParams ?s) = [''a'', ''c'']"
    by blast+
  from at_m [THEN conjunct2, THEN conjunct1] alm
  have "computeSignature ?m = spec_fingerprint [i \<leftarrow> [''c'', '''', ''a'']. i \<noteq> []] (state_bases ?m)"
    by blast
  then have m: "computeSignature ?m = ''a,c#a:1234:2:3|c:1234:2:3''"
    by (simp only: fpm)
  from at_n [THEN conjunct1] aln
  have "computeSignature ?n = spec_fingerprint [] (state_bases ?n)"
    by blast
  then have n: "computeSignature ?n = ''ALL#a:1234:2:3|b:1234:2:3''"
    by (simp only: fpn)
  from at_z [THEN conjunct2, THEN conjunct2, THEN conjunct2, THEN conjunct2, THEN conjunct2, THEN conjunct1] none
  have "computeSignature ?z = spec_selection_signature (getSelectedKnowledgeBaseIds ?z) @ ''#EMPTY''"
    by blast
  then have c: "computeSignature ?z = ''z#EMPTY''"
    by (simp add: sel)
  have some: "filterBases (state_bases ?s) (getSelectedKnowledgeBaseIds ?s) \<noteq> []"
    and sels: "spec_selection_signature (getSelectedKnowledgeBaseIds ?s) = ''a,c''"
    by code_simp+
  from at_s [THEN conjunct2, THEN conjunct2, THEN conjunct2, THEN conjunct2, THEN conjunct2,
      THEN conjunct2, THEN conjunct1] some
  have "computeSignature ?s \<noteq> spec_selection_signature (getSelectedKnowledgeBaseIds ?s) @ ''#EMPTY''"
    by blast
  then have c': "computeSignature ?s \<noteq> ''a,c#EMPTY''"
    by (simp add: sels)
  have d: "sorted (js_sort [''b'', ''a'', ''ab''])"
    by (rule at_s [THEN conjunct2, THEN conjunct2, THEN conjunct2, THEN conjunct1])
  from at_s [THEN conjunct2, THEN conjunct2, THEN conjunct2, THEN conjunct2, THEN conjunct2,
      THEN conjunct2, THEN conjunct2, THEN conjunct1]
  have e: "number_to_string 1700000000123 = decimal 1700000000123"
    by simp
  from a b m n c c' d e show ?thesis by (intro conjI)
qed

subsection \<open>C9: starting the owner-side sync\<close>

text \<open>
  Claim C9, as amended. With the bridge to the main process in place: when the service is
  already syncing, \<open>startSync\<close> pushes the current snapshot as a refresh and changes nothing
  else, the stored fingerprint included; when it is not, \<open>startSync\<close> makes it syncing,
  sets the stored fingerprint to the fingerprint of the current state, subscribes to the
  store and pushes the current snapshot.
\<close>

theorem sync_startSync_behaviour:
  assumes "bridge"
  shows "(isSyncing w \<longrightarrow>
            sync_startSync bridge gp reason state w = w\<lparr>pushed := pushed w @ [(refresh, buildPayload gp state)]\<rparr>
          \<and> lastSignature (sync_startSync bridge gp reason state w) = lastSignature w)
       \<and> (\<not> isSyncing w \<longrightarrow>
            isSyncing (sync_startSync bridge gp reason state w)
          \<and> lastSignature (sync_startSync bridge gp reason state w) = Some (computeSignature state)
          \<and> unsubscribe (sync_startSync bridge gp reason state w)
          \<and> listeners (sync_startSync bridge gp reason state w) = Suc (listeners w)
          \<and> pushed (sync_startSync bridge gp reason state w) = pushed w @ [(reason, buildPayload gp state)])"
  using assms by (simp add: sync_startSync_inactive sync_startSync_active)

text \<open>After a start on an empty state the stored fingerprint is \<open>ALL#EMPTY\<close>, not unset.\<close>

theorem sync_startSync_sets_fingerprint:
  "\<not> isSyncing initial_sync
   \<and> lastSignature (sync_startSync True ex_getParams initial (ex_state [] None) initial_sync) = Some ''ALL#EMPTY''
   \<and> lastSignature (sync_startSync True ex_getParams initial (ex_state [] None) initial_sync) \<noteq> None"
  by code_simp

text \<open>A start, then a second start while syncing: the second is a refresh and leaves the
  stored fingerprint alone.\<close>

theorem sync_startSync_behaviour_witness:
  "isSyncing (sync_startSync True ex_getParams initial (ex_state [''a''] None) initial_sync)
   \<and> lastSignature (sync_startSync True ex_getParams initial (ex_state [''a''] None) initial_sync)
       = Some (computeSignature (ex_state [''a''] None))
   \<and> listeners (sync_startSync True ex_getParams initial (ex_state [''a''] None) initial_sync) = 1
   \<and> pushed (sync_startSync True ex_getParams initial (ex_state [''a''] None) initial_sync)
       = [(initial, buildPayload ex_getParams (ex_state [''a''] None))]
   \<and> pushed (sync_startSync True ex_getParams initial (ex_state [''a'', ''b''] None)
        (sync_startSync True ex_getParams initial (ex_state [''a''] None) initial_sync))
       = [(initial, buildPayload ex_getParams (ex_state [''a''] None)),
          (refresh, buildPayload ex_getParams (ex_state [''a'', ''b''] None))]
   \<and> lastSignature (sync_startSync True ex_getParams initial (ex_state [''a'', ''b''] None)
        (sync_startSync True ex_getParams initial (ex_state [''a''] None) initial_sync))
       = Some (computeSignature (ex_state [''a''] None))"
proof -
  let ?s0 = "ex_state [''a''] None"
  let ?s1 = "ex_state [''a'', ''b''] None"
  let ?w = "sync_startSync True ex_getParams initial ?s0 initial_sync"
  have idle: "\<not> isSyncing initial_sync" "pushed initial_sync = []" "listeners initial_sync = 0"
    by (simp_all add: initial_sync_def)
  from sync_startSync_behaviour [of True initial_sync ex_getParams initial ?s0] idle
  have a: "isSyncing ?w" "lastSignature ?w = Some (computeSignature ?s0)" "listeners ?w = 1"
    "pushed ?w = [(initial, buildPayload ex_getParams ?s0)]"
    by simp_all
  from sync_startSync_behaviour [of True ?w ex_getParams initial ?s1] a
  have b: "pushed (sync_startSync True ex_getParams initial ?s1 ?w)
       = [(initial, buildPayload ex_getParams ?s0), (refresh, buildPayload ex_getParams ?s1)]"
    "lastSignature (sync_startSync True ex_getParams initial ?s1 ?w) = Some (computeSignature ?s0)"
    by simp_all
  from a b show ?thesis by (intro conjI)
qed

subsection \<open>C10: a document count of zero\<close>

text \<open>
  Claim C10. For a request without \<open>top_k\<close>: a base whose document count is 0 has the
  effective limit 0, the default is not used, and its item has no results whatever
  retrieval returns, in the pipeline of the base and in the response of a whole search.
\<close>

theorem zero_document_count_no_results:
  assumes "top_k payload = None"
  shows "(documentCount (metadata request) = Some 0 \<longrightarrow>
            allowedResults cfg payload request = 0
          \<and> (\<forall>item. snd (search_base cfg retrieve rerank payload request) = Inr item \<longrightarrow> results item = []))
       \<and> (\<forall>calls resp. search cfg retrieve rerank s payload = (calls, Inr resp) \<longrightarrow>
            list_all2 (\<lambda>request item. documentCount (metadata request) = Some 0 \<longrightarrow> results item = [])
              (resolve s (knowledge_base_ids payload)) (data resp))"
proof -
  have lim: "allowedResults cfg payload rq = 0" if "documentCount (metadata rq) = Some 0" for rq
    using assms that by (simp add: allowedResults_def limitOverride_def)
  have empty: "results item = []"
    if "documentCount (metadata rq) = Some 0" "snd (search_base cfg retrieve rerank payload rq) = Inr item"
    for rq item
    using search_base_item [OF that(2)] lim [OF that(1)] by (auto simp: slice0_def)
  have "list_all2 (\<lambda>request item. documentCount (metadata request) = Some 0 \<longrightarrow> results item = [])
              (resolve s (knowledge_base_ids payload)) (data resp)"
    if "search cfg retrieve rerank s payload = (calls, Inr resp)" for calls resp
  proof -
    from search_success [OF that]
    have "list_all2 (\<lambda>request item. snd (search_base cfg retrieve rerank payload request) = Inr item)
            (resolve s (knowledge_base_ids payload)) (data resp)" by simp
    then show ?thesis
      by (rule list_all2_mono) (use empty in blast)
  qed
  with lim empty show ?thesis by blast
qed

text \<open>A base with document count 0, for which retrieval returns three results.\<close>

theorem zero_document_count_no_results_witness:
  "top_k (ex_request [''kb-0''] None None) = None
   \<and> documentCount (metadata (ex_entry ''kb-0'' ''Empty'' (Some 0) None)) = Some 0
   \<and> allowedResults ex_cfg (ex_request [''kb-0''] None None) (ex_entry ''kb-0'' ''Empty'' (Some 0) None) = 0
   \<and> search ex_cfg ex_retrieve ex_rerank_reverse (ex_store [ex_entry ''kb-0'' ''Empty'' (Some 0) None])
        (ex_request [''kb-0''] None None)
       = ([SearchCall ''what is it'' (params (ex_entry ''kb-0'' ''Empty'' (Some 0) None))],
          Inr \<lparr>object = ''list'',
               data = [\<lparr>knowledge_base_id = ''kb-0'', knowledge_base_name = ''Empty'', results = []\<rparr>]\<rparr>)
   \<and> list_all (\<lambda>item. results item = [])
        (data \<lparr>object = ''list'',
               data = [\<lparr>knowledge_base_id = ''kb-0'', knowledge_base_name = ''Empty'', results = []\<rparr>]\<rparr>)"
proof -
  let ?e = "ex_entry ''kb-0'' ''Empty'' (Some 0) None"
  let ?req = "ex_request [''kb-0''] None None"
  let ?resp = "\<lparr>object = ''list'',
               data = [\<lparr>knowledge_base_id = ''kb-0'', knowledge_base_name = ''Empty'', results = []\<rparr>]\<rparr>"
  have k: "top_k ?req = None" by (simp add: ex_request_def)
  have d: "documentCount (metadata ?e) = Some 0" by (simp add: ex_entry_def)
  have run: "search ex_cfg ex_retrieve ex_rerank_reverse (ex_store [?e]) ?req
       = ([SearchCall ''what is it'' (params ?e)], Inr ?resp)"
    by code_simp
  have res: "resolve (ex_store [?e]) (knowledge_base_ids ?req) = [?e]"
    by code_simp
  from zero_document_count_no_results [OF k, of ?e ex_cfg ex_retrieve ex_rerank_reverse "ex_store [?e]"] d
  have a: "allowedResults ex_cfg ?req ?e = 0" by blast
  from zero_document_count_no_results [OF k, of ?e ex_cfg ex_retrieve ex_rerank_reverse "ex_store [?e]"] run
  have "list_all2 (\<lambda>request item. documentCount (metadata request) = Some 0 \<longrightarrow> results item = [])
          (resolve (ex_store [?e]) (knowledge_base_ids ?req)) (data ?resp)"
    by blast
  then have b: "list_all (\<lambda>item. results item = []) (data ?resp)"
    unfolding res using d by simp
  from k d a run b show ?thesis by (intro conjI)
qed

end
